theory Spec2Isabelle
  imports Complex_Main "HOL-Library.Sublist"
begin

section \<open>Strings and paths\<close>

text \<open>
  Python \<open>str\<close> and \<open>bytes\<close> values are modelled as \<open>string\<close> (a list of 8-bit
  characters; a \<open>str\<close> is represented by its UTF-8 encoding). The operators used by
  \<^verbatim>\<open>run.py\<close> are: \<^verbatim>\<open>needle in s\<close>, \<^verbatim>\<open>s.startswith(p)\<close>, \<^verbatim>\<open>s.endswith(p)\<close>,
  \<^verbatim>\<open>s.replace(old, '')\<close>, \<^verbatim>\<open>s.split(sep)\<close> and \<^verbatim>\<open>Path(s).name\<close>.
\<close>

fun py_in :: "string \<Rightarrow> string \<Rightarrow> bool" where
  "py_in needle [] = (needle = [])"
| "py_in needle (c # cs) = (prefix needle (c # cs) \<or> py_in needle cs)"

definition startswith :: "string \<Rightarrow> string \<Rightarrow> bool" where
  "startswith s p = prefix p s"

definition endswith :: "string \<Rightarrow> string \<Rightarrow> bool" where
  "endswith s p = prefix (rev p) (rev s)"

text \<open>\<^verbatim>\<open>s.split(c)\<close> for a one-character separator: never empty, keeps empty fields.\<close>

fun split_on :: "char \<Rightarrow> string \<Rightarrow> string list" where
  "split_on c [] = [[]]"
| "split_on c (x # xs) =
     (if x = c then [] # split_on c xs
      else (case split_on c xs of [] \<Rightarrow> [[x]] | w # ws \<Rightarrow> (x # w) # ws))"

text \<open>
  \<^verbatim>\<open>Path(s).name\<close> on POSIX: pathlib drops empty components and single dots when it
  parses the string; the name is the last component that is left, or the empty string.
\<close>

definition path_parts :: "string \<Rightarrow> string list" where
  "path_parts s = filter (\<lambda>w. w \<noteq> [] \<and> w \<noteq> ''.'') (split_on CHR ''/'' s)"

definition path_name :: "string \<Rightarrow> string" where
  "path_name s = (case path_parts s of [] \<Rightarrow> [] | ps \<Rightarrow> last ps)"

text \<open>
  \<^verbatim>\<open>fnmatch.fnmatch(name, pattern)\<close> for the wildcards \<open>*\<close> and \<open>?\<close> (bracket
  classes are not modelled; no pattern of the fixed table reaches this function).
\<close>

fun fnmatch :: "string \<Rightarrow> string \<Rightarrow> bool" where
  "fnmatch [] [] = True"
| "fnmatch (c # cs) [] = False"
| "fnmatch [] (p # ps) = (p = CHR ''*'' \<and> fnmatch [] ps)"
| "fnmatch (c # cs) (p # ps) =
     (if p = CHR ''*'' then fnmatch (c # cs) ps \<or> fnmatch cs (p # ps)
      else if p = CHR ''?'' then fnmatch cs ps
      else p = c \<and> fnmatch cs ps)"

section \<open>The ignore filter\<close>

definition IGNORED_PATTERNS :: "string list" where
  "IGNORED_PATTERNS =
     [''target/'', ''build/'', ''build_objects/'', ''keos_kernel'', ''ffs.bin'', ''sfs.bin'',
      ''.o'', ''kelibc.a'', ''.cargo/template/'', ''Cargo.lock'']"

definition ROOTFS_EXCEPTIONS :: "string list" where
  "ROOTFS_EXCEPTIONS = [''hello'', ''os-release'', ''simple_fs.tar'']"

text \<open>
  The loop over \<open>ROOTFS_EXCEPTIONS\<close>: \<open>True\<close> when some exception matches the file
  name (the source returns \<open>False\<close> from \<open>is_ignored\<close> there).
\<close>

fun rootfs_exception :: "string \<Rightarrow> string list \<Rightarrow> bool" where
  "rootfs_exception file_name [] = False"
| "rootfs_exception file_name (exception # es) =
     (if exception = ''hello'' \<and> startswith file_name ''hello'' then True
      else if exception = file_name then True
      else rootfs_exception file_name es)"

text \<open>The loop over \<open>IGNORED_PATTERNS\<close>, one branch per kind of pattern.\<close>

fun ignored_by :: "string \<Rightarrow> string list \<Rightarrow> bool" where
  "ignored_by path_str [] = False"
| "ignored_by path_str (pattern # ps) =
     (if endswith pattern ''/'' then
        (if py_in (''/'' @ butlast pattern @ ''/'') path_str
            \<or> endswith path_str (''/'' @ butlast pattern)
         then True else ignored_by path_str ps)
      else if CHR ''*'' \<in> set pattern then
        (if fnmatch (path_name path_str) pattern then True else ignored_by path_str ps)
      else
        (if py_in pattern path_str then True else ignored_by path_str ps))"

definition is_ignored :: "string \<Rightarrow> bool" where
  "is_ignored path_str =
     (if py_in ''/rootfs/'' path_str \<or> endswith path_str ''/rootfs'' then
        (if endswith path_str ''/rootfs'' then True
         else if rootfs_exception (path_name path_str) ROOTFS_EXCEPTIONS then False
         else True)
      else ignored_by path_str IGNORED_PATTERNS)"

section \<open>The cumulative whitelist\<close>

text \<open>
  What \<open>get_project_whitelist\<close> finds at \<^verbatim>\<open>keos-project<k>/grader/.grade-target\<close>:
  no file, a file that is not JSON, or a JSON object with or without the key
  \<open>whitelist\<close> (a list of relative paths).
\<close>

datatype grade_target = Missing | Unparsable | Config "string list option"

type_synonym stage_files = "int \<Rightarrow> grade_target"

definition get_project_whitelist :: "stage_files \<Rightarrow> int \<Rightarrow> string list" where
  "get_project_whitelist fs project_num =
     (case fs project_num of
        Missing \<Rightarrow> []
      | Unparsable \<Rightarrow> []
      | Config None \<Rightarrow> []
      | Config (Some whitelist) \<Rightarrow> whitelist)"

text \<open>
  The loop of \<open>build_cumulative_whitelist\<close> over the stage numbers, with its two
  accumulators: the Python set \<open>cumulative_whitelist\<close> and the dict \<open>project_details\<close>.
\<close>

fun whitelist_loop ::
  "stage_files \<Rightarrow> int list \<Rightarrow> string set \<times> (int \<rightharpoonup> string list)
     \<Rightarrow> string set \<times> (int \<rightharpoonup> string list)" where
  "whitelist_loop fs [] acc = acc"
| "whitelist_loop fs (project_num # rest) (cumulative_whitelist, project_details) =
     (let project_whitelist = get_project_whitelist fs project_num in
      if project_whitelist \<noteq> [] then
        whitelist_loop fs rest
          (cumulative_whitelist \<union> set project_whitelist,
           project_details(project_num \<mapsto> project_whitelist))
      else whitelist_loop fs rest (cumulative_whitelist, project_details))"

text \<open>
  \<^verbatim>\<open>range(1, current_project_num + 1)\<close> is \<open>[1..current_project_num]\<close>. The source
  returns \<^verbatim>\<open>list(cumulative_whitelist)\<close>, a list of the set's elements in an order
  Python does not fix; its only use is the membership test of the scanner, so the
  model returns the set.
\<close>

definition build_cumulative_whitelist ::
  "stage_files \<Rightarrow> int \<Rightarrow> string set \<times> (int \<rightharpoonup> string list)" where
  "build_cumulative_whitelist fs current_project_num =
     whitelist_loop fs [1..current_project_num] ({}, Map.empty)"

text \<open>
  The spec's scenario: stage 1 declares \<open>bar.txt\<close>, stage 2 declares \<open>foo.txt\<close>, no
  other stage declares anything; and the same declarations written with a repeated
  entry.
\<close>

definition scenario_stages :: stage_files where
  "scenario_stages k =
     (if k = 1 then Config (Some [''bar.txt''])
      else if k = 2 then Config (Some [''foo.txt''])
      else Missing)"

definition scenario_stages_repeated :: stage_files where
  "scenario_stages_repeated k =
     (if k = 1 then Config (Some [''bar.txt'', ''bar.txt''])
      else if k = 2 then Config (Some [''foo.txt'', ''foo.txt''])
      else Config None)"

section \<open>Exceptions and effects\<close>

text \<open>
  A raised exception is a value: its class and its message. \<open>except Exception\<close>
  catches every class but \<open>SystemExit\<close> and \<open>KeyboardInterrupt\<close>; a bare \<open>except\<close>
  catches all of them. A function that may raise returns \<open>exn + 'a\<close>.
\<close>

datatype exn_class =
  TimeoutExpired | OSError | IsADirectoryError | ValueError | UnicodeDecodeError
  | ZeroDivisionError | KeyError | SystemExit | KeyboardInterrupt

datatype exn = Exn exn_class string

fun is_Exception :: "exn \<Rightarrow> bool" where
  "is_Exception (Exn c msg) = (c \<noteq> SystemExit \<and> c \<noteq> KeyboardInterrupt)"

fun str_exn :: "exn \<Rightarrow> string" where
  "str_exn (Exn c msg) = msg"

text \<open>
  What the harness does to the world, in order: text printed (\<open>Print\<close>, with its
  newline), an exception printed by \<open>print(e)\<close>, bytes written by
  \<open>sys.stdout.buffer.write\<close>, a file copied by \<open>shutil.copy2\<close>, the boot configuration
  regenerated by \<open>setup_kernel_arguments\<close>, the emulator started (live or not, its
  command line, its timeout if any), a post-hook command run with its timeout, and the
  two lines of the summary that format numbers to two decimals (\<open>Print_rubric\<close>:
  rubric name, score, maximum, outcome lines; \<open>Print_total\<close>: score, maximum),
  which carry the numbers rather than their decimal text.
\<close>

datatype event =
  Print string
  | Print_exn exn
  | Write string
  | Copy2 string string
  | Setup_kernel_arguments string
  | Run_emulator bool "string list" "rat option"
  | Run_post_hook "string list" rat
  | Print_rubric string rat rat string
  | Print_total rat rat

definition nl :: string where
  "nl = [CHR 0x0A]"

function str_nat :: "nat \<Rightarrow> string" where
  "str_nat n =
     (if n < 10 then [''0123456789'' ! n]
      else str_nat (n div 10) @ [''0123456789'' ! (n mod 10)])"
  by pat_completeness auto
termination
  by (relation "measure id") auto

definition str_int :: "int \<Rightarrow> string" where
  "str_int i = (if i < 0 then CHR ''-'' # str_nat (nat (- i)) else str_nat (nat i))"

text \<open>\<^verbatim>\<open>s.replace(old, new)\<close>: every non-overlapping occurrence, from the left.\<close>

function replace :: "string \<Rightarrow> string \<Rightarrow> string \<Rightarrow> string" where
  "replace old new [] = (if old = [] then new else [])"
| "replace old new (c # cs) =
     (if old = [] then new @ c # replace old new cs
      else if prefix old (c # cs) then new @ replace old new (drop (length old) (c # cs))
      else c # replace old new cs)"
  by pat_completeness auto
termination
  by (relation "measure (\<lambda>(old, new, s). length s)") auto

text \<open>
  \<^verbatim>\<open>int(s)\<close> on ASCII text: surrounding whitespace, an optional sign, then decimal
  digits, single underscores allowed between digits. \<open>None\<close> is \<open>ValueError\<close>.
  (Python also accepts non-ASCII digits and whitespace; those are not modelled.)
\<close>

definition is_space :: "char \<Rightarrow> bool" where
  "is_space c = (let k = (of_char c :: nat) in (9 \<le> k \<and> k \<le> 13) \<or> (28 \<le> k \<and> k \<le> 32))"

definition is_digit :: "char \<Rightarrow> bool" where
  "is_digit c = (let k = (of_char c :: nat) in 48 \<le> k \<and> k \<le> 57)"

definition digit_val :: "char \<Rightarrow> nat" where
  "digit_val c = of_char c - 48"

fun parse_digits :: "nat \<Rightarrow> string \<Rightarrow> nat option" where
  "parse_digits acc [] = Some acc"
| "parse_digits acc [c] = (if is_digit c then Some (10 * acc + digit_val c) else None)"
| "parse_digits acc (c # d # ds) =
     (if is_digit c then parse_digits (10 * acc + digit_val c) (d # ds)
      else if c = CHR ''_'' \<and> is_digit d then parse_digits (10 * acc + digit_val d) ds
      else None)"

definition parse_nat :: "string \<Rightarrow> nat option" where
  "parse_nat s =
     (case s of [] \<Rightarrow> None
      | c # cs \<Rightarrow> if is_digit c then parse_digits (digit_val c) cs else None)"

definition py_int :: "string \<Rightarrow> int option" where
  "py_int s =
     (let t = rev (dropWhile is_space (rev (dropWhile is_space s))) in
      case t of
        [] \<Rightarrow> None
      | c # cs \<Rightarrow>
          if c = CHR ''-'' then map_option (\<lambda>n. - int n) (parse_nat cs)
          else if c = CHR ''+'' then map_option int (parse_nat cs)
          else map_option int (parse_nat t))"

section \<open>The integrity scanner\<close>

text \<open>
  The working tree under the scanned directory, as \<open>os.walk\<close> sees it: a directory is
  the list of its entries in listing order, a file is its bytes or cannot be read.
  The reference tree is looked up by path only.
\<close>

datatype fcontent = Readable string | Unreadable

datatype node = File fcontent | Dir "(string \<times> node) list"

datatype fsobj = Absent | Regular fcontent | Directory

record scan_env =
  repo_root :: string
  template_root :: string
  worktree :: "string \<Rightarrow> node option"
  template :: "string \<Rightarrow> fsobj"
  sha256 :: "string \<Rightarrow> string"
  copy2 :: "string \<Rightarrow> string \<Rightarrow> exn option"

text \<open>\<^verbatim>\<open>Path(a) / b\<close> as a string, for a relative \<open>b\<close>.\<close>

definition joinpath :: "string \<Rightarrow> string \<Rightarrow> string" where
  "joinpath a b = (if a = ''/'' then a @ b else a @ ''/'' @ b)"

text \<open>\<^verbatim>\<open>str(rel_path)\<close>: the components of a relative path joined by slashes.\<close>

fun join_parts :: "string list \<Rightarrow> string" where
  "join_parts [] = []"
| "join_parts [p] = p"
| "join_parts (p # q # ps) = p @ ''/'' @ join_parts (q # ps)"

text \<open>
  \<open>get_file_hash\<close>: \<open>FileNotFoundError\<close> and \<open>PermissionError\<close> give \<open>None\<close>; opening a
  directory raises \<open>IsADirectoryError\<close>, which the source does not catch.
\<close>

definition get_file_hash :: "scan_env \<Rightarrow> string \<Rightarrow> fsobj \<Rightarrow> exn + string option" where
  "get_file_hash env file_path obj =
     (case obj of
        Absent \<Rightarrow> Inr None
      | Regular Unreadable \<Rightarrow> Inr None
      | Regular (Readable bytes) \<Rightarrow> Inr (Some (sha256 env bytes))
      | Directory \<Rightarrow> Inl (Exn IsADirectoryError file_path))"

text \<open>The pruning of \<open>dirs\<close> in the body of the walk: which subdirectories are entered.\<close>

definition keep_dir :: "string \<Rightarrow> int \<Rightarrow> string \<Rightarrow> string \<Rightarrow> bool" where
  "keep_dir directory_name current_project_num root_dir d =
     (if directory_name = ''keos-projects'' \<and> current_project_num > 0 then
        (if is_ignored (joinpath root_dir d) then False
         else if startswith d ''keos-project'' then
           (case py_int (replace ''keos-project'' [] d) of
              None \<Rightarrow> False
            | Some project_num \<Rightarrow> project_num \<le> current_project_num)
         else True)
      else \<not> is_ignored (joinpath root_dir d))"

text \<open>
  \<open>os.walk\<close>, top-down: the files of a directory first, then each kept subdirectory
  in turn. Every file comes with its full path, the components of its path relative
  to the scanned directory, and its content.
\<close>

fun files_here ::
  "string \<Rightarrow> string list \<Rightarrow> (string \<times> node) list \<Rightarrow> (string \<times> string list \<times> fcontent) list" where
  "files_here root_dir parts [] = []"
| "files_here root_dir parts ((name, File c) # es) =
     (joinpath root_dir name, parts @ [name], c) # files_here root_dir parts es"
| "files_here root_dir parts ((name, Dir sub) # es) = files_here root_dir parts es"

fun os_walk ::
  "string \<Rightarrow> int \<Rightarrow> string \<Rightarrow> string list \<Rightarrow> (string \<times> node) list
     \<Rightarrow> (string \<times> string list \<times> fcontent) list"
  and walk_dirs ::
  "string \<Rightarrow> int \<Rightarrow> string \<Rightarrow> string list \<Rightarrow> (string \<times> node) list
     \<Rightarrow> (string \<times> string list \<times> fcontent) list" where
  "os_walk directory_name n root_dir parts es =
     files_here root_dir parts es @ walk_dirs directory_name n root_dir parts es"
| "walk_dirs directory_name n root_dir parts [] = []"
| "walk_dirs directory_name n root_dir parts ((name, File c) # es) =
     walk_dirs directory_name n root_dir parts es"
| "walk_dirs directory_name n root_dir parts ((name, Dir sub) # es) =
     (if keep_dir directory_name n root_dir name
      then os_walk directory_name n (joinpath root_dir name) (parts @ [name]) sub else [])
     @ walk_dirs directory_name n root_dir parts es"

text \<open>The loop over \<^verbatim>\<open>range(1, current_project_num + 1)\<close> that sets \<open>is_whitelisted\<close>.\<close>

fun whitelisted_in :: "string \<Rightarrow> string list \<Rightarrow> int list \<Rightarrow> bool" where
  "whitelisted_in project_rel_path cumulative_whitelist [] = False"
| "whitelisted_in project_rel_path cumulative_whitelist (project_num # rest) =
     (let project_prefix = ''keos-project'' @ str_int project_num @ ''/'' in
      if startswith project_rel_path project_prefix
         \<and> replace project_prefix [] project_rel_path \<in> set cumulative_whitelist
      then True
      else whitelisted_in project_rel_path cumulative_whitelist rest)"

definition is_whitelisted :: "string \<Rightarrow> string list \<Rightarrow> int \<Rightarrow> string \<Rightarrow> bool" where
  "is_whitelisted directory_name cumulative_whitelist current_project_num rel_path =
     (directory_name = ''keos-projects''
      \<and> whitelisted_in rel_path cumulative_whitelist [1..current_project_num])"

record violation =
  file_path :: string
  rel_path :: string
  original_file :: string

definition original_path :: "scan_env \<Rightarrow> string \<Rightarrow> string \<Rightarrow> string" where
  "original_path env directory_name rel =
     joinpath (joinpath (template_root env) directory_name) rel"

text \<open>
  The body of the walk, file by file: ignored, whitelisted and reference-less files
  are skipped; the others are hashed and compared. An exception ends the scan.
\<close>

fun scan_files ::
  "scan_env \<Rightarrow> string \<Rightarrow> string list \<Rightarrow> int \<Rightarrow> (string \<times> string list \<times> fcontent) list
     \<Rightarrow> exn + violation list" where
  "scan_files env directory_name wl n [] = Inr []"
| "scan_files env directory_name wl n ((fp, parts, c) # rest) =
     (if is_ignored fp then scan_files env directory_name wl n rest
      else if is_whitelisted directory_name wl n (join_parts parts)
        then scan_files env directory_name wl n rest
      else
        (let orig = original_path env directory_name (join_parts parts) in
         if template env orig = Absent then scan_files env directory_name wl n rest
         else
           (case get_file_hash env fp (Regular c) of
              Inl e \<Rightarrow> Inl e
            | Inr current_hash \<Rightarrow>
                (case get_file_hash env orig (template env orig) of
                   Inl e \<Rightarrow> Inl e
                 | Inr original_hash \<Rightarrow>
                     (if current_hash \<noteq> original_hash then
                        (case scan_files env directory_name wl n rest of
                           Inl e \<Rightarrow> Inl e
                         | Inr violations \<Rightarrow>
                             Inr (\<lparr>file_path = fp, rel_path = join_parts parts,
                                   original_file = orig\<rparr> # violations))
                      else scan_files env directory_name wl n rest)))))"

text \<open>
  The loop over the violations: a line per file in mode \<open>warn\<close>, a copy and a line in
  mode \<open>override\<close> (a failed copy prints two lines and exits with status 1), nothing
  in any other mode.
\<close>

fun handle_violations :: "scan_env \<Rightarrow> string \<Rightarrow> violation list \<Rightarrow> event list \<times> exn option" where
  "handle_violations env mode [] = ([], None)"
| "handle_violations env mode (v # vs) =
     (if mode = ''warn'' then
        (case handle_violations env mode vs of
           (evs, r) \<Rightarrow> (Print (''  '' @ rel_path v @ '' (MODIFIED)'' @ nl) # evs, r))
      else if mode = ''override'' then
        (case copy2 env (original_file v) (file_path v) of
           None \<Rightarrow>
             (case handle_violations env mode vs of
                (evs, r) \<Rightarrow>
                  (Copy2 (original_file v) (file_path v)
                   # Print (''  RESTORED: '' @ rel_path v @ '' (restored)'' @ nl) # evs, r))
         | Some e \<Rightarrow>
             if is_Exception e then
               ([Print (''  ERROR: '' @ rel_path v @ '' (restore failed: '' @ str_exn e @ '')'' @ nl),
                 Print (''ERROR: File restoration failed. Aborting.'' @ nl)],
                Some (Exn SystemExit ''1''))
             else ([], Some e))
      else handle_violations env mode vs)"

text \<open>The walk from the scanned directory; a path that is not a directory yields nothing.\<close>

definition walk_tree ::
  "string \<Rightarrow> int \<Rightarrow> string \<Rightarrow> node \<Rightarrow> (string \<times> string list \<times> fcontent) list" where
  "walk_tree directory_name n check_dir tree =
     (case tree of
        File c \<Rightarrow> []
      | Dir es \<Rightarrow> os_walk directory_name n check_dir [] es)"

text \<open>The part of \<open>check_directory_integrity\<close> after the walk: report and return.\<close>

definition report_violations ::
  "scan_env \<Rightarrow> string \<Rightarrow> string \<Rightarrow> exn + violation list \<Rightarrow> event list \<times> (exn + string list)" where
  "report_violations env directory_name mode scanned =
     (case scanned of
        Inl e \<Rightarrow> ([], Inl e)
      | Inr violations \<Rightarrow>
          (if violations \<noteq> [] then
             (case handle_violations env mode violations of
                (evs, r) \<Rightarrow>
                  (Print (nl @ directory_name @ ''/ - '' @ str_nat (length violations)
                          @ '' violation(s):'' @ nl) # evs,
                   case r of
                     Some e \<Rightarrow> Inl e
                   | None \<Rightarrow> Inr (map rel_path violations)))
           else ([], Inr (map rel_path violations))))"

definition check_directory_integrity ::
  "scan_env \<Rightarrow> string \<Rightarrow> string list \<Rightarrow> int \<Rightarrow> string \<Rightarrow> event list \<times> (exn + string list)" where
  "check_directory_integrity env directory_name cumulative_whitelist current_project_num mode =
     (let check_dir = joinpath (repo_root env) directory_name in
      case worktree env check_dir of
        None \<Rightarrow> ([], Inr [])
      | Some tree \<Rightarrow>
          report_violations env directory_name mode
            (scan_files env directory_name cumulative_whitelist current_project_num
               (walk_tree directory_name current_project_num check_dir tree)))"

text \<open>
  In the spec's words: a scanned file has a reference counterpart when a file exists
  at the same relative path under the reference root.
\<close>

definition has_reference :: "scan_env \<Rightarrow> string \<Rightarrow> string \<times> string list \<times> fcontent \<Rightarrow> bool" where
  "has_reference env directory_name f =
     (case f of (fp, parts, c) \<Rightarrow>
        template env (original_path env directory_name (join_parts parts)) \<noteq> Absent)"

section \<open>The process supervisor\<close>

text \<open>
  What the outside world does in one call of \<open>grade_single\<close>: whether
  \<open>setup_kernel_arguments\<close> raises; what the blocking \<open>subprocess.run\<close> gives (the
  captured standard output, or an exception such as \<open>TimeoutExpired\<close>); what the
  live \<open>Popen\<close> gives (an exception, or the lines that \<open>readline\<close> returns in the
  iterations for which \<open>poll()\<close> is still \<open>None\<close>; the emulator is taken to exit after
  them); and what the post-hook command gives (exit status and standard error, or an
  exception).
\<close>

datatype run_result = Completed string | Raised exn

datatype live_result = Popen_raised exn | Lines "string list"

datatype hook_result = Exited int string | Hook_raised exn

record behaviour =
  setup_raises :: "exn option"
  blocking_run :: run_result
  live_run :: live_result
  hook_run :: hook_result

definition CLEAR_SCREEN :: string where
  "CLEAR_SCREEN = [CHR 0x1B, CHR ''c'']"

text \<open>
  \<^verbatim>\<open>bytes.decode('utf-8')\<close>: a \<open>str\<close> is represented by its UTF-8 bytes, so decoding
  returns the bytes when they are well-formed UTF-8 and raises otherwise.
\<close>

definition byte_in :: "nat \<Rightarrow> nat \<Rightarrow> char \<Rightarrow> bool" where
  "byte_in lo hi c = (let k = (of_char c :: nat) in lo \<le> k \<and> k \<le> hi)"

fun utf8_valid :: "string \<Rightarrow> bool" where
  "utf8_valid [] = True"
| "utf8_valid (a # s) =
     (let k = (of_char a :: nat) in
      if k < 128 then utf8_valid s
      else if 194 \<le> k \<and> k \<le> 223 then
        (case s of
           b # s' \<Rightarrow> byte_in 128 191 b \<and> utf8_valid s'
         | _ \<Rightarrow> False)
      else if 224 \<le> k \<and> k \<le> 239 then
        (case s of
           b # c # s' \<Rightarrow>
             byte_in (if k = 224 then 160 else 128) (if k = 237 then 159 else 191) b
             \<and> byte_in 128 191 c \<and> utf8_valid s'
         | _ \<Rightarrow> False)
      else if 240 \<le> k \<and> k \<le> 244 then
        (case s of
           b # c # d # s' \<Rightarrow>
             byte_in (if k = 240 then 144 else 128) (if k = 244 then 143 else 191) b
             \<and> byte_in 128 191 c \<and> byte_in 128 191 d \<and> utf8_valid s'
         | _ \<Rightarrow> False)
      else False)"

text \<open>
  The live loop, over the lines read: a line with the clear-screen sequence empties
  the buffer and is not written (\<open>continue\<close>); any other line is written to standard
  output and appended to the buffer. The result is the lines written and the buffer.
\<close>

fun live_loop :: "string list \<Rightarrow> string \<Rightarrow> string list \<times> string" where
  "live_loop [] output = ([], output)"
| "live_loop (out # rest) output =
     (if py_in CLEAR_SCREEN out then live_loop rest []
      else (case live_loop rest (output @ out) of
              (written, final) \<Rightarrow> (out # written, final)))"

text \<open>
  In the spec's words: only the portion after the most recent clear is retained,
  that is, the lines after the last line that contains the clear-screen sequence.
\<close>

definition after_last_clear :: "string list \<Rightarrow> string list" where
  "after_last_clear outs = rev (takeWhile (\<lambda>out. \<not> py_in CLEAR_SCREEN out) (rev outs))"

text \<open>
  \<^verbatim>\<open>except Exception as e: print(e); return 'timeout'\<close>. The message of the
  \<open>UnicodeDecodeError\<close> that \<open>decode\<close> raises is not modelled (a fixed text stands
  for it), nor is a failure of writing to standard output.
\<close>

definition except_Exception :: "event list \<Rightarrow> exn \<Rightarrow> event list \<times> (exn + string)" where
  "except_Exception evs e =
     (if is_Exception e then (evs @ [Print_exn e], Inr ''timeout'') else (evs, Inl e))"

definition grade_single ::
  "behaviour \<Rightarrow> string list \<Rightarrow> string \<Rightarrow> nat \<Rightarrow> string \<Rightarrow> rat \<Rightarrow> bool
     \<Rightarrow> event list \<times> (exn + string)" where
  "grade_single b run_command target cpu mem timeout live =
     (let setup = Setup_kernel_arguments (''--quite '' @ target);
          command = run_command @ [''-smp'', str_nat cpu, ''-m'', mem] in
      case setup_raises b of
        Some e \<Rightarrow> ([setup], Inl e)
      | None \<Rightarrow>
          if live then
            (case live_run b of
               Popen_raised e \<Rightarrow> except_Exception [setup, Run_emulator True command None] e
             | Lines outs \<Rightarrow>
                 (case live_loop outs [] of
                    (written, output) \<Rightarrow>
                      (let evs = [setup, Run_emulator True command None] @ map Write written
                                 @ [Print (''---------'' @ nl)] in
                       if utf8_valid output then (evs, Inr output)
                       else except_Exception evs (Exn UnicodeDecodeError ''utf-8''))))
          else
            (case blocking_run b of
               Completed stdout \<Rightarrow>
                 ([setup, Run_emulator False command (Some timeout)], Inr stdout)
             | Raised e \<Rightarrow>
                 except_Exception [setup, Run_emulator False command (Some timeout)] e))"

section \<open>The grading engine\<close>

definition MARKER :: string where
  "MARKER = ''test result: ok. 1 passed; 0 failed''"

text \<open>
  A test's configuration, each key present or not; \<open>post-hook\<close> is a list of strings
  or some other JSON value. A rubric has a score and a dict of tests. Dicts whose
  order matters are association lists with distinct keys, in insertion order.
\<close>

datatype post_hook = Hook_list "string list" | Hook_other

record test_conf =
  conf_timeout :: "rat option"
  conf_mem :: "string option"
  conf_cpu :: "nat option"
  conf_post_hook :: "post_hook option"

record rubric =
  rubric_score :: "rat option"
  rubric_tests :: "(string \<times> test_conf) list option"

type_synonym test_results = "(string \<times> bool \<times> string) list"

type_synonym grading_result = "(string \<times> test_results) list"

text \<open>\<^verbatim>\<open>d[k] = v\<close> on a dict: in place when the key exists, at the end otherwise.\<close>

fun dict_set :: "'k \<Rightarrow> 'v \<Rightarrow> ('k \<times> 'v) list \<Rightarrow> ('k \<times> 'v) list" where
  "dict_set k v [] = [(k, v)]"
| "dict_set k v ((k', v') # d) = (if k = k' then (k, v) # d else (k', v') # dict_set k v d)"

text \<open>\<^verbatim>\<open>sep.join(xs)\<close>\<close>

fun py_join :: "string \<Rightarrow> string list \<Rightarrow> string" where
  "py_join sep [] = []"
| "py_join sep [x] = x"
| "py_join sep (x # y # xs) = x @ sep @ py_join sep (y # xs)"

text \<open>Sequencing of effects: the events of a step go before those of what follows.\<close>

fun prepend :: "event list \<Rightarrow> event list \<times> 'a \<Rightarrow> event list \<times> 'a" where
  "prepend evs (evs', r) = (evs @ evs', r)"

text \<open>
  The \<open>try\<close> block of the post-hook: the command is run with the test's timeout;
  the test passes if it exits with status 0; on another status the failure text is
  appended to the output; the bare \<open>except\<close> turns every exception into a failure.
\<close>

definition run_post_hook ::
  "behaviour \<Rightarrow> string list \<Rightarrow> rat \<Rightarrow> string \<Rightarrow> event list \<times> bool \<times> string" where
  "run_post_hook b hook_command timeout output =
     (case hook_run b of
        Exited returncode stderr \<Rightarrow>
          ([Run_post_hook hook_command timeout],
           returncode = 0,
           if returncode = 0 then output
           else output @ nl @ ''POST-HOOK [`'' @ py_join '' '' hook_command @ ''`] Failed: ''
                @ stderr)
      | Hook_raised e \<Rightarrow> ([Run_post_hook hook_command timeout], False, output))"

text \<open>
  One iteration of the loop over the tests of a rubric: the test is filtered out, or
  \<open>grade_single\<close> raises, or the run is abandoned on \<open>panic\<close> (\<open>return\<close> in live
  mode), or the test gets its result.
\<close>

datatype test_step = Skipped | Raised_in_test exn | Aborted | Tested bool string

definition filtered_out :: "string list option \<Rightarrow> string \<Rightarrow> bool" where
  "filtered_out filt name =
     (case filt of None \<Rightarrow> False | Some names \<Rightarrow> name \<notin> set names \<and> names \<noteq> [])"

definition test_timeout :: "test_conf \<Rightarrow> rat" where
  "test_timeout conf = (case conf_timeout conf of None \<Rightarrow> 30 | Some t \<Rightarrow> t)"

definition test_mem :: "test_conf \<Rightarrow> string" where
  "test_mem conf = (case conf_mem conf of None \<Rightarrow> ''512M'' | Some m \<Rightarrow> m)"

definition test_cpu :: "test_conf \<Rightarrow> nat" where
  "test_cpu conf = (case conf_cpu conf of None \<Rightarrow> 4 | Some c \<Rightarrow> c)"

definition verdict :: "string list option \<Rightarrow> bool \<Rightarrow> event list" where
  "verdict filt passed =
     (if filt = None then [Print ((if passed then ''ok'' else ''fail'') @ nl)] else [])"

definition announce :: "string list option \<Rightarrow> string \<Rightarrow> event list" where
  "announce filt name =
     (if filt = None then [Print (''Running test: '' @ name @ '' ... '')] else [])"

definition grade_test ::
  "(string \<Rightarrow> string \<Rightarrow> behaviour) \<Rightarrow> string list \<Rightarrow> string list option \<Rightarrow> string \<Rightarrow> string
     \<Rightarrow> test_conf \<Rightarrow> event list \<times> test_step" where
  "grade_test world run_command filt rname name conf =
     (if filtered_out filt name then ([], Skipped)
      else
        (case grade_single (world rname name) run_command name (test_cpu conf) (test_mem conf)
                (test_timeout conf) (filt \<noteq> None) of
           (evs, Inl e) \<Rightarrow> (announce filt name @ evs, Raised_in_test e)
         | (evs, Inr output) \<Rightarrow>
             (let passed = py_in MARKER output in
              if filt \<noteq> None \<and> py_in ''panic'' output then (announce filt name @ evs, Aborted)
              else
                (case (if passed then conf_post_hook conf else None) of
                   Some (Hook_list hook_command) \<Rightarrow>
                     (case run_post_hook (world rname name) hook_command (test_timeout conf)
                             output of
                        (hook_evs, hook_passed, hook_output) \<Rightarrow>
                          (announce filt name @ evs @ hook_evs @ verdict filt hook_passed,
                           Tested hook_passed hook_output))
                 | _ \<Rightarrow> (announce filt name @ evs @ verdict filt passed, Tested passed output)))))"

definition record_result ::
  "string \<Rightarrow> string \<Rightarrow> bool \<times> string \<Rightarrow> grading_result \<Rightarrow> grading_result" where
  "record_result rname name v gr =
     dict_set rname (dict_set name v (case map_of gr rname of None \<Rightarrow> [] | Some d \<Rightarrow> d)) gr"

fun grade_tests ::
  "(string \<Rightarrow> string \<Rightarrow> behaviour) \<Rightarrow> string list \<Rightarrow> string list option \<Rightarrow> string
     \<Rightarrow> (string \<times> test_conf) list \<Rightarrow> grading_result
     \<Rightarrow> event list \<times> (exn + grading_result option)" where
  "grade_tests world run_command filt rname [] gr = ([], Inr (Some gr))"
| "grade_tests world run_command filt rname ((name, conf) # rest) gr =
     (case grade_test world run_command filt rname name conf of
        (evs, Skipped) \<Rightarrow> prepend evs (grade_tests world run_command filt rname rest gr)
      | (evs, Raised_in_test e) \<Rightarrow> (evs, Inl e)
      | (evs, Aborted) \<Rightarrow> (evs, Inr None)
      | (evs, Tested passed output) \<Rightarrow>
          prepend evs
            (grade_tests world run_command filt rname rest
               (record_result rname name (passed, output) gr)))"

fun grade_rubrics ::
  "(string \<Rightarrow> string \<Rightarrow> behaviour) \<Rightarrow> string list \<Rightarrow> string list option
     \<Rightarrow> (string \<times> rubric) list \<Rightarrow> grading_result
     \<Rightarrow> event list \<times> (exn + grading_result option)" where
  "grade_rubrics world run_command filt [] gr = ([], Inr (Some gr))"
| "grade_rubrics world run_command filt ((rname, r) # rest) gr =
     (case rubric_tests r of
        None \<Rightarrow> ([], Inl (Exn KeyError ''tests''))
      | Some tests \<Rightarrow>
          (case grade_tests world run_command filt rname tests (dict_set rname [] gr) of
             (evs, Inr (Some gr')) \<Rightarrow> prepend evs (grade_rubrics world run_command filt rest gr')
           | (evs, Inr None) \<Rightarrow> (evs, Inr None)
           | (evs, Inl e) \<Rightarrow> (evs, Inl e)))"

definition grade ::
  "(string \<Rightarrow> string \<Rightarrow> behaviour) \<Rightarrow> int \<Rightarrow> string list \<Rightarrow> (string \<times> rubric) list
     \<Rightarrow> string list option \<Rightarrow> event list \<times> (exn + grading_result option)" where
  "grade world pj run_command rubrics filt =
     prepend
       (if filt = None then [Print (''Start Grading keos-project'' @ str_int pj @ '':'' @ nl)]
        else [])
       (grade_rubrics world run_command filt rubrics [])"

section \<open>The score aggregator\<close>

text \<open>
  Scores are Python floats; the model computes them as rationals, the exact values
  that the float operations round. The accumulators of \<open>summarize\<close> are a record.
\<close>

record summary =
  s_failed :: "(string \<times> string) list"
  s_max_score :: rat
  s_score :: rat
  s_tests :: nat
  s_passed :: nat

text \<open>\<open>strip_unprintable\<close>: the characters of \<open>string.printable\<close> are kept.\<close>

definition printable :: "char \<Rightarrow> bool" where
  "printable c = (let k = (of_char c :: nat) in (9 \<le> k \<and> k \<le> 13) \<or> (32 \<le> k \<and> k \<le> 126))"

definition strip_unprintable :: "string \<Rightarrow> string" where
  "strip_unprintable s = filter printable s"

text \<open>
  The inner loop over the results of one rubric, with the outcome lines \<open>o\<close>, the
  number of passed tests \<open>rscore\<close> of the rubric and the overall accumulators.
\<close>

fun summarize_tests ::
  "test_results \<Rightarrow> string list \<times> nat \<times> summary \<Rightarrow> string list \<times> nat \<times> summary" where
  "summarize_tests [] st = st"
| "summarize_tests ((name, result, output) # rest) (outcomes, rscore, s) =
     summarize_tests rest
       (outcomes @ [''- '' @ (if result then ''pass'' else ''fail'') @ '': '' @ name],
        rscore + (if result then 1 else 0),
        s\<lparr>s_tests := s_tests s + 1,
          s_passed := s_passed s + (if result then 1 else 0),
          s_failed := (if \<not> result then dict_set name output (s_failed s) else s_failed s)\<rparr>)"

text \<open>
  The outer loop. \<^verbatim>\<open>rubrics[rname]['score']\<close> raises \<open>KeyError\<close> on a missing key,
  and \<^verbatim>\<open>rscore / float(len(rubric.items()))\<close> raises \<open>ZeroDivisionError\<close> when the
  rubric has no result.
\<close>

fun summarize_rubrics ::
  "(string \<times> rubric) list \<Rightarrow> grading_result \<Rightarrow> summary \<Rightarrow> event list \<times> (exn + summary)" where
  "summarize_rubrics rubrics [] s = ([], Inr s)"
| "summarize_rubrics rubrics ((rname, results) # rest) s =
     (case map_of rubrics rname of
        None \<Rightarrow> ([], Inl (Exn KeyError rname))
      | Some r \<Rightarrow>
          (case rubric_score r of
             None \<Rightarrow> ([], Inl (Exn KeyError ''score''))
           | Some rmaxscore \<Rightarrow>
               (case summarize_tests results
                       ([], 0, s\<lparr>s_max_score := s_max_score s + rmaxscore\<rparr>) of
                  (outcomes, rscore, s') \<Rightarrow>
                    if length results = 0
                    then ([], Inl (Exn ZeroDivisionError ''float division by zero''))
                    else
                      (let this_score = of_nat rscore / of_nat (length results) * rmaxscore in
                       prepend
                         [Print_rubric rname this_score rmaxscore (py_join nl outcomes),
                          Print (''----------------'' @ nl)]
                         (summarize_rubrics rubrics rest
                            (s'\<lparr>s_score := s_score s' + this_score\<rparr>))))))"

definition PERFECT :: string where
  "PERFECT = [CHR 0xC3, CHR 0xB0, CHR 0xC5, CHR 0xB8, CHR 0xC5, CHR 0xBD, CHR 0xE2, CHR 0x80,
              CHR 0xB0] @ '' ALL TEST PASSED -- PERFECT SCORE''"

fun print_failed :: "(string \<times> string) list \<Rightarrow> event list" where
  "print_failed [] = []"
| "print_failed ((test, output) # rest) =
     Print (''TEST `'' @ test @ ''`: '' @ strip_unprintable output @ nl) # print_failed rest"

definition summarize ::
  "int \<Rightarrow> (string \<times> rubric) list \<Rightarrow> grading_result \<Rightarrow> event list \<times> exn option" where
  "summarize pj rubrics grading_result =
     prepend
       [Print (''----------------'' @ nl),
        Print (''Test Summary of `keos-project'' @ str_int pj @ ''`:'' @ nl)]
       (case summarize_rubrics rubrics grading_result
               \<lparr>s_failed = [], s_max_score = 0, s_score = 0, s_tests = 0, s_passed = 0\<rparr> of
          (evs, Inl e) \<Rightarrow> (evs, Some e)
        | (evs, Inr s) \<Rightarrow>
            (evs
             @ [Print (''TEST SUMMARY: '' @ str_nat (s_passed s) @ '' of '' @ str_nat (s_tests s)
                       @ '' passed'' @ nl),
                Print_total (s_score s) (s_max_score s)]
             @ (if s_passed s = s_tests s then [Print (PERFECT @ nl)] else [])
             @ (if length (s_failed s) > 0
                then Print (''----------------'' @ nl) # print_failed (s_failed s) else []),
             None))"

section \<open>Scenarios\<close>

text \<open>
  A working tree for the scenarios: stage directories 1 to 3 under \<open>keos-projects\<close>,
  every file edited; every file has a reference counterpart except \<open>new.txt\<close>. The
  hash is a parameter of the model; the scenarios take the identity for it.
\<close>

definition scenario_tree :: node where
  "scenario_tree = Dir
     [(''keos-project1'', Dir
         [(''bar.txt'', File (Readable ''edited'')),
          (''baz.txt'', File (Readable ''edited'')),
          (''new.txt'', File (Readable ''edited'')),
          (''lib.o'', File (Readable ''edited'')),
          (''target'', Dir [(''a.rs'', File (Readable ''edited''))])]),
      (''keos-project2'', Dir [(''foo.txt'', File (Readable ''edited''))]),
      (''keos-project3'', Dir [(''qux.txt'', File (Readable ''edited''))])]"

definition scenario_env :: scan_env where
  "scenario_env = \<lparr>
     repo_root = ''/repo'',
     template_root = ''/tpl'',
     worktree = (\<lambda>p. if p = ''/repo/keos-projects'' then Some scenario_tree else None),
     template = (\<lambda>p. if p = ''/tpl/keos-projects/keos-project1/new.txt'' then Absent
                      else Regular (Readable ''original'')),
     sha256 = (\<lambda>bytes. bytes),
     copy2 = (\<lambda>src dst. None) \<rparr>"

text \<open>
  The spec's grading scenario: one rubric \<open>core\<close> worth 10 with the tests \<open>t1\<close> and
  \<open>t2\<close>, both with an empty configuration; the emulator prints the success marker for
  \<open>t1\<close> and a failure line for \<open>t2\<close>.
\<close>

definition no_conf :: test_conf where
  "no_conf = \<lparr>conf_timeout = None, conf_mem = None, conf_cpu = None, conf_post_hook = None\<rparr>"


definition prints :: "string \<Rightarrow> behaviour" where
  "prints stdout =
     \<lparr>setup_raises = None, blocking_run = Completed stdout, live_run = Lines [stdout],
      hook_run = Exited 0 []\<rparr>"

definition scenario_world :: "string \<Rightarrow> string \<Rightarrow> behaviour" where
  "scenario_world rname name =
     (if name = ''t1'' then prints ''test result: ok. 1 passed; 0 failed''
      else prints ''test result: ok. 0 passed; 1 failed'')"


text \<open>
  A test with a post-hook, a world in which the hook exits with status 1, and one in
  which running the hook raises.
\<close>

definition hook_conf :: test_conf where
  "hook_conf = \<lparr>conf_timeout = Some 5, conf_mem = None, conf_cpu = None,
                conf_post_hook = Some (Hook_list [''check'', ''disk''])\<rparr>"

definition hook_fails_world :: "string \<Rightarrow> string \<Rightarrow> behaviour" where
  "hook_fails_world rname name =
     \<lparr>setup_raises = None, blocking_run = Completed ''test result: ok. 1 passed; 0 failed'',
      live_run = Lines [], hook_run = Exited 1 ''bad''\<rparr>"

definition hook_raises_world :: "string \<Rightarrow> string \<Rightarrow> behaviour" where
  "hook_raises_world rname name =
     \<lparr>setup_raises = None, blocking_run = Completed ''test result: ok. 1 passed; 0 failed'',
      live_run = Lines [], hook_run = Hook_raised (Exn SystemExit ''1'')\<rparr>"

text \<open>A rubric without tests, and the live stream of the spec's scenario.\<close>

definition empty_rubrics :: "(string \<times> rubric) list" where
  "empty_rubrics = [(''core'', \<lparr>rubric_score = Some 10, rubric_tests = Some []\<rparr>)]"

definition clear_stream :: behaviour where
  "clear_stream =
     \<lparr>setup_raises = None, blocking_run = Completed [],
      live_run = Lines [''line1'' @ nl, CLEAR_SCREEN, ''line2'' @ nl], hook_run = Exited 0 []\<rparr>"

definition times_out_world :: "string \<Rightarrow> string \<Rightarrow> behaviour" where
  "times_out_world rname name =
     \<lparr>setup_raises = None, blocking_run = Raised (Exn TimeoutExpired ''timed out''),
      live_run = Lines [], hook_run = Exited 0 []\<rparr>"

section \<open>Facts about the ignore filter\<close>

lemma py_in_sublist: "py_in needle s = sublist needle s"
  by (induction s) (simp_all add: sublist_Cons_right)

lemma endswith_suffix: "endswith s p = suffix p s"
  by (simp add: endswith_def suffix_to_prefix)

lemma split_on_nonempty: "split_on c s \<noteq> []"
  by (induction s) (simp_all split: list.split)

lemma split_on_append_sep: "split_on c (a @ c # b) = split_on c a @ split_on c b"
proof (induction a)
  case Nil
  show ?case by simp
next
  case (Cons x a)
  have ne: "split_on c a \<noteq> []" by (rule split_on_nonempty)
  show ?case
  proof (cases "x = c")
    case True
    with Cons show ?thesis by simp
  next
    case False
    with Cons ne show ?thesis by (cases "split_on c a") simp_all
  qed
qed

lemma segments_of_infix:
  assumes "sublist (c # d @ [c]) p"
  shows "sublist (split_on c d) (split_on c p)"
proof -
  from assms obtain a b where p: "p = a @ (c # d @ [c]) @ b"
    by (auto simp: sublist_def)
  have "p = a @ c # (d @ c # b)" using p by simp
  then have "split_on c p = split_on c a @ split_on c (d @ c # b)"
    by (simp only: split_on_append_sep)
  then have "split_on c p = split_on c a @ split_on c d @ split_on c b"
    by (simp only: split_on_append_sep)
  then show ?thesis by (simp only: sublist_appendI)
qed

lemma segments_of_suffix:
  assumes "suffix (c # d) p"
  shows "suffix (split_on c d) (split_on c p)"
proof -
  from assms obtain a where p: "p = a @ c # d"
    by (auto simp: suffix_def)
  then have "split_on c p = split_on c a @ split_on c d"
    by (simp only: split_on_append_sep)
  then show ?thesis by (simp add: suffix_def)
qed

lemma ignored_by_dir:
  "endswith pat ''/'' \<Longrightarrow>
   ignored_by p (pat # ps) =
     (sublist (''/'' @ butlast pat @ ''/'') p \<or> suffix (''/'' @ butlast pat) p \<or> ignored_by p ps)"
  by (simp add: py_in_sublist endswith_suffix)

lemma ignored_by_plain:
  "\<not> endswith pat ''/'' \<Longrightarrow> CHR ''*'' \<notin> set pat \<Longrightarrow>
   ignored_by p (pat # ps) = (sublist pat p \<or> ignored_by p ps)"
  by (simp add: py_in_sublist)

lemma ignored_by_table:
  "ignored_by p IGNORED_PATTERNS \<longleftrightarrow>
     (\<exists>d \<in> set [''target'', ''build'', ''build_objects'', ''.cargo/template''].
        sublist (''/'' @ d @ ''/'') p \<or> suffix (''/'' @ d) p)
   \<or> (\<exists>s \<in> set [''keos_kernel'', ''ffs.bin'', ''sfs.bin'', ''.o'', ''kelibc.a'', ''Cargo.lock''].
        sublist s p)"
proof -
  have d: "endswith ''target/'' ''/''" "endswith ''build/'' ''/''"
    "endswith ''build_objects/'' ''/''" "endswith ''.cargo/template/'' ''/''"
    by code_simp+
  have n: "\<not> endswith ''keos_kernel'' ''/''" "\<not> endswith ''ffs.bin'' ''/''"
    "\<not> endswith ''sfs.bin'' ''/''" "\<not> endswith ''.o'' ''/''"
    "\<not> endswith ''kelibc.a'' ''/''" "\<not> endswith ''Cargo.lock'' ''/''"
    by code_simp+
  have s: "CHR ''*'' \<notin> set ''keos_kernel''" "CHR ''*'' \<notin> set ''ffs.bin''"
    "CHR ''*'' \<notin> set ''sfs.bin''" "CHR ''*'' \<notin> set ''.o''"
    "CHR ''*'' \<notin> set ''kelibc.a''" "CHR ''*'' \<notin> set ''Cargo.lock''"
    by simp_all
  have "ignored_by p IGNORED_PATTERNS \<longleftrightarrow>
     (sublist ''/target/'' p \<or> suffix ''/target'' p) \<or>
     (sublist ''/build/'' p \<or> suffix ''/build'' p) \<or>
     (sublist ''/build_objects/'' p \<or> suffix ''/build_objects'' p) \<or>
     sublist ''keos_kernel'' p \<or> sublist ''ffs.bin'' p \<or> sublist ''sfs.bin'' p \<or>
     sublist ''.o'' p \<or> sublist ''kelibc.a'' p \<or>
     (sublist ''/.cargo/template/'' p \<or> suffix ''/.cargo/template'' p) \<or>
     sublist ''Cargo.lock'' p"
    unfolding IGNORED_PATTERNS_def
    by (simp only: ignored_by_dir [OF d(1)] ignored_by_dir [OF d(2)] ignored_by_dir [OF d(3)]
        ignored_by_dir [OF d(4)] ignored_by_plain [OF n(1) s(1)] ignored_by_plain [OF n(2) s(2)]
        ignored_by_plain [OF n(3) s(3)] ignored_by_plain [OF n(4) s(4)]
        ignored_by_plain [OF n(5) s(5)] ignored_by_plain [OF n(6) s(6)]
        ignored_by.simps(1) butlast.simps append.simps list.simps if_False if_True simp_thms
        disj_assoc)
  then show ?thesis by auto
qed

lemma is_ignored_not_rootfs:
  "\<not> (sublist ''/rootfs/'' p \<or> suffix ''/rootfs'' p) \<Longrightarrow>
   is_ignored p = ignored_by p IGNORED_PATTERNS"
  unfolding is_ignored_def py_in_sublist endswith_suffix
  by (simp only: if_False)

text \<open>
  C3, as the code has it. When the \<open>rootfs\<close> rule does not decide, a path is ignored
  exactly when (a) one of the directory names \<open>target\<close>, \<open>build\<close>, \<open>build_objects\<close>,
  \<open>.cargo/template\<close> occurs in it between slashes (or after a slash at its end), or
  (b) one of the plain patterns \<open>keos_kernel\<close>, \<open>ffs.bin\<close>, \<open>sfs.bin\<close>, \<open>.o\<close>,
  \<open>kelibc.a\<close>, \<open>Cargo.lock\<close> occurs anywhere in the whole path string. A match of
  (a) is a match of whole path segments: the segments of the directory name are
  consecutive segments of the path.
\<close>

theorem is_ignored_rules:
  assumes "\<not> (sublist ''/rootfs/'' p \<or> suffix ''/rootfs'' p)"
  shows "(is_ignored p \<longleftrightarrow>
            (\<exists>d \<in> set [''target'', ''build'', ''build_objects'', ''.cargo/template''].
               sublist (''/'' @ d @ ''/'') p \<or> suffix (''/'' @ d) p)
          \<or> (\<exists>s \<in> set [''keos_kernel'', ''ffs.bin'', ''sfs.bin'', ''.o'', ''kelibc.a'',
                         ''Cargo.lock'']. sublist s p))
       \<and> (\<forall>d. sublist (''/'' @ d @ ''/'') p \<or> suffix (''/'' @ d) p \<longrightarrow>
              sublist (split_on CHR ''/'' d) (split_on CHR ''/'' p))"
proof (rule conjI)
  show "is_ignored p \<longleftrightarrow>
            (\<exists>d \<in> set [''target'', ''build'', ''build_objects'', ''.cargo/template''].
               sublist (''/'' @ d @ ''/'') p \<or> suffix (''/'' @ d) p)
          \<or> (\<exists>s \<in> set [''keos_kernel'', ''ffs.bin'', ''sfs.bin'', ''.o'', ''kelibc.a'',
                         ''Cargo.lock'']. sublist s p)"
    by (simp only: is_ignored_not_rootfs [OF assms] ignored_by_table)
next
  show "\<forall>d. sublist (''/'' @ d @ ''/'') p \<or> suffix (''/'' @ d) p \<longrightarrow>
              sublist (split_on CHR ''/'' d) (split_on CHR ''/'' p)"
  proof (intro allI impI)
    fix d
    assume "sublist (''/'' @ d @ ''/'') p \<or> suffix (''/'' @ d) p"
    then show "sublist (split_on CHR ''/'' d) (split_on CHR ''/'' p)"
    proof
      assume "sublist (''/'' @ d @ ''/'') p"
      then have "sublist (CHR ''/'' # d @ [CHR ''/'']) p" by (simp only: append.simps)
      then show ?thesis by (rule segments_of_infix)
    next
      assume "suffix (''/'' @ d) p"
      then have "suffix (CHR ''/'' # d) p" by (simp only: append.simps)
      then have "suffix (split_on CHR ''/'' d) (split_on CHR ''/'' p)"
        by (rule segments_of_suffix)
      then show ?thesis by (rule suffix_imp_sublist)
    qed
  qed
qed

theorem is_ignored_rules_witness:
  "\<not> (sublist ''/rootfs/'' ''/repo/keos/target/x.rs'' \<or> suffix ''/rootfs'' ''/repo/keos/target/x.rs'')
   \<and> sublist (''/'' @ ''target'' @ ''/'') ''/repo/keos/target/x.rs''
   \<and> is_ignored ''/repo/keos/target/x.rs''
   \<and> sublist (split_on CHR ''/'' ''target'') (split_on CHR ''/'' ''/repo/keos/target/x.rs'')"
proof -
  let ?p = "''/repo/keos/target/x.rs''"
  have h: "\<not> (sublist ''/rootfs/'' ?p \<or> suffix ''/rootfs'' ?p)" by code_simp
  have t: "sublist (''/'' @ ''target'' @ ''/'') ?p" by code_simp
  note r = is_ignored_rules [OF h]
  have m: "''target'' \<in> set [''target'', ''build'', ''build_objects'', ''.cargo/template'']"
    by (simp only: list.set insertI1)
  from t m have "\<exists>d \<in> set [''target'', ''build'', ''build_objects'', ''.cargo/template''].
      sublist (''/'' @ d @ ''/'') ?p \<or> suffix (''/'' @ d) ?p"
    by blast
  with r have i: "is_ignored ?p" by blast
  from r t have g: "sublist (split_on CHR ''/'' ''target'') (split_on CHR ''/'' ?p)" by blast
  from h t i g show ?thesis by (intro conjI)
qed

text \<open>
  C3 as stated fails: the file name \<open>boot.old.rs\<close> only contains \<open>.o\<close> in its middle,
  ends with no pattern of the table, lies in no build directory, and is ignored.
\<close>

theorem is_ignored_infix_counterexample:
  "is_ignored ''/repo/keos/src/boot.old.rs''
   \<and> split_on CHR ''/'' ''/repo/keos/src/boot.old.rs'' = ['''', ''repo'', ''keos'', ''src'', ''boot.old.rs'']
   \<and> path_name ''/repo/keos/src/boot.old.rs'' = ''boot.old.rs''
   \<and> \<not> endswith ''boot.old.rs'' ''.o''
   \<and> \<not> endswith ''boot.old.rs'' ''keos_kernel''
   \<and> \<not> endswith ''boot.old.rs'' ''ffs.bin''
   \<and> \<not> endswith ''boot.old.rs'' ''sfs.bin''
   \<and> \<not> endswith ''boot.old.rs'' ''kelibc.a''
   \<and> \<not> endswith ''boot.old.rs'' ''Cargo.lock''"
  by code_simp


section \<open>Facts about the cumulative whitelist\<close>

lemma whitelist_loop_fst:
  "fst (whitelist_loop fs ks (cw, d)) = cw \<union> (\<Union>k \<in> set ks. set (get_project_whitelist fs k))"
proof (induction ks arbitrary: cw d)
  case Nil
  show ?case by simp
next
  case (Cons k ks)
  show ?case
  proof (cases "get_project_whitelist fs k = []")
    case True
    then show ?thesis by (simp add: Cons.IH)
  next
    case False
    then show ?thesis
      by (simp add: Let_def Un_assoc Cons.IH)
  qed
qed

lemma build_cumulative_whitelist_Union:
  "fst (build_cumulative_whitelist fs n) = (\<Union>k \<in> {1..n}. set (get_project_whitelist fs k))"
  by (simp add: build_cumulative_whitelist_def whitelist_loop_fst)

text \<open>
  C6. The cumulative whitelist of stage \<open>n\<close> is the union of the declared whitelists of
  the stages \<open>1..n\<close>. Hence it grows with the stage number; it is the same whatever the
  order in which the stages are visited and however often a stage is visited; only
  the set of entries of each declaration matters (not their order or repetition);
  and accumulating the same stages again onto the result changes nothing.
\<close>

theorem build_cumulative_whitelist_union:
  assumes "n1 < n2"
  shows "fst (build_cumulative_whitelist fs n1) \<subseteq> fst (build_cumulative_whitelist fs n2)
       \<and> fst (build_cumulative_whitelist fs n2) = (\<Union>k \<in> {1..n2}. set (get_project_whitelist fs k))
       \<and> (\<forall>ks. set ks = {1..n2} \<longrightarrow>
              fst (whitelist_loop fs ks ({}, Map.empty)) = fst (build_cumulative_whitelist fs n2))
       \<and> (\<forall>fs'. (\<forall>k. set (get_project_whitelist fs' k) = set (get_project_whitelist fs k)) \<longrightarrow>
              fst (build_cumulative_whitelist fs' n2) = fst (build_cumulative_whitelist fs n2))
       \<and> fst (whitelist_loop fs [1..n2] (build_cumulative_whitelist fs n2))
            = fst (build_cumulative_whitelist fs n2)"
proof (intro conjI allI impI)
  from assms have "{1..n1} \<subseteq> {1..n2}" by simp
  then show "fst (build_cumulative_whitelist fs n1) \<subseteq> fst (build_cumulative_whitelist fs n2)"
    unfolding build_cumulative_whitelist_Union by (rule UN_mono) simp
next
  show "fst (build_cumulative_whitelist fs n2) = (\<Union>k \<in> {1..n2}. set (get_project_whitelist fs k))"
    by (rule build_cumulative_whitelist_Union)
next
  fix ks :: "int list"
  assume "set ks = {1..n2}"
  then show "fst (whitelist_loop fs ks ({}, Map.empty)) = fst (build_cumulative_whitelist fs n2)"
    by (simp add: build_cumulative_whitelist_Union whitelist_loop_fst)
next
  fix fs'
  assume "\<forall>k. set (get_project_whitelist fs' k) = set (get_project_whitelist fs k)"
  then show "fst (build_cumulative_whitelist fs' n2) = fst (build_cumulative_whitelist fs n2)"
    by (simp add: build_cumulative_whitelist_Union)
next
  obtain cw d where r: "build_cumulative_whitelist fs n2 = (cw, d)"
    by (cases "build_cumulative_whitelist fs n2")
  have "cw = (\<Union>k \<in> {1..n2}. set (get_project_whitelist fs k))"
    using build_cumulative_whitelist_Union [of fs n2] r by simp
  then show "fst (whitelist_loop fs [1..n2] (build_cumulative_whitelist fs n2))
      = fst (build_cumulative_whitelist fs n2)"
    by (simp add: r whitelist_loop_fst)
qed


lemma scenario_stages_whitelists:
  "get_project_whitelist scenario_stages_repeated k = get_project_whitelist scenario_stages k
     @ get_project_whitelist scenario_stages k"
  by (simp add: get_project_whitelist_def scenario_stages_def scenario_stages_repeated_def)

theorem build_cumulative_whitelist_union_witness:
  "(1::int) < 2
   \<and> fst (build_cumulative_whitelist scenario_stages 1)
        \<subseteq> fst (build_cumulative_whitelist scenario_stages 2)
   \<and> set [2, 1, 2 :: int] = {1..2}
   \<and> fst (whitelist_loop scenario_stages [2, 1, 2] ({}, Map.empty))
        = fst (build_cumulative_whitelist scenario_stages 2)
   \<and> (\<forall>k. set (get_project_whitelist scenario_stages_repeated k)
            = set (get_project_whitelist scenario_stages k))
   \<and> fst (build_cumulative_whitelist scenario_stages_repeated 2)
        = fst (build_cumulative_whitelist scenario_stages 2)"
proof -
  have h: "(1::int) < 2" by simp
  note t = build_cumulative_whitelist_union [OF h, of scenario_stages]
  have ks: "set [2, 1, 2 :: int] = {1..2}" by auto
  have fs': "\<forall>k. set (get_project_whitelist scenario_stages_repeated k)
      = set (get_project_whitelist scenario_stages k)"
    by (simp add: scenario_stages_whitelists)
  from t have a: "fst (build_cumulative_whitelist scenario_stages 1)
        \<subseteq> fst (build_cumulative_whitelist scenario_stages 2)"
    by (rule conjunct1)
  from t ks have b: "fst (whitelist_loop scenario_stages [2, 1, 2] ({}, Map.empty))
        = fst (build_cumulative_whitelist scenario_stages 2)"
    by blast
  from t fs' have c: "fst (build_cumulative_whitelist scenario_stages_repeated 2)
        = fst (build_cumulative_whitelist scenario_stages 2)"
    by blast
  from h a ks b fs' c show ?thesis by (intro conjI)
qed


section \<open>Facts about the integrity scanner\<close>

lemma scan_files_sound:
  "scan_files env d wl n files = Inr vs \<Longrightarrow> v \<in> set vs \<Longrightarrow>
   \<exists>fp parts c. (fp, parts, c) \<in> set files \<and> file_path v = fp \<and> rel_path v = join_parts parts
     \<and> original_file v = original_path env d (join_parts parts)
     \<and> \<not> is_ignored fp
     \<and> \<not> is_whitelisted d wl n (join_parts parts)
     \<and> template env (original_path env d (join_parts parts)) \<noteq> Absent"
proof (induction files arbitrary: vs)
  case Nil
  then show ?case by simp
next
  case (Cons f files)
  obtain fp parts c where f: "f = (fp, parts, c)" by (cases f)
  show ?case
  proof (cases "scan_files env d wl n files")
    case (Inl e)
    with Cons.prems f show ?thesis
      by (auto simp: Let_def split: if_splits sum.splits)
  next
    case (Inr ws)
    note ih = Cons.IH [OF Inr]
    from Cons.prems f Inr have "vs = ws \<or>
      (vs = \<lparr>file_path = fp, rel_path = join_parts parts,
              original_file = original_path env d (join_parts parts)\<rparr> # ws
       \<and> \<not> is_ignored fp \<and> \<not> is_whitelisted d wl n (join_parts parts)
       \<and> template env (original_path env d (join_parts parts)) \<noteq> Absent)"
      by (auto simp: Let_def split: if_splits sum.splits)
    then show ?thesis
    proof
      assume "vs = ws"
      with Cons.prems ih [of] obtain fp' parts' c' where
        "(fp', parts', c') \<in> set files \<and> file_path v = fp' \<and> rel_path v = join_parts parts'
     \<and> original_file v = original_path env d (join_parts parts')
     \<and> \<not> is_ignored fp'
     \<and> \<not> is_whitelisted d wl n (join_parts parts')
     \<and> template env (original_path env d (join_parts parts')) \<noteq> Absent" by blast
      then show ?thesis by (intro exI [of _ fp'] exI [of _ parts'] exI [of _ c']) simp
    next
      assume a: "vs = \<lparr>file_path = fp, rel_path = join_parts parts,
              original_file = original_path env d (join_parts parts)\<rparr> # ws
       \<and> \<not> is_ignored fp \<and> \<not> is_whitelisted d wl n (join_parts parts)
       \<and> template env (original_path env d (join_parts parts)) \<noteq> Absent"
      show ?thesis
      proof (cases "v \<in> set ws")
        case True
        with ih obtain fp' parts' c' where
        "(fp', parts', c') \<in> set files \<and> file_path v = fp' \<and> rel_path v = join_parts parts'
     \<and> original_file v = original_path env d (join_parts parts')
     \<and> \<not> is_ignored fp'
     \<and> \<not> is_whitelisted d wl n (join_parts parts')
     \<and> template env (original_path env d (join_parts parts')) \<noteq> Absent" by blast
        then show ?thesis by (intro exI [of _ fp'] exI [of _ parts'] exI [of _ c']) simp
      next
        case False
        with a Cons.prems have "v = \<lparr>file_path = fp, rel_path = join_parts parts,
              original_file = original_path env d (join_parts parts)\<rparr>" by simp
        with a f show ?thesis by (intro exI [of _ fp] exI [of _ parts] exI [of _ c]) simp
      qed
    qed
  qed
qed

lemma scan_files_filter:
  "scan_files env d wl n (filter (has_reference env d) files) = scan_files env d wl n files"
proof (induction files)
  case Nil
  show ?case by simp
next
  case (Cons f files)
  obtain fp parts c where f: "f = (fp, parts, c)" by (cases f)
  show ?case
  proof (cases "has_reference env d f")
    case True
    with Cons f show ?thesis by (auto simp: Let_def split: sum.splits)
  next
    case False
    with Cons f show ?thesis by (simp add: Let_def has_reference_def)
  qed
qed

lemma joinpath_plain: "r \<noteq> ''/'' \<Longrightarrow> joinpath r p = r @ CHR ''/'' # p"
  by (simp add: joinpath_def)

lemma foldl_joinpath:
  "r \<noteq> [] \<Longrightarrow> r \<noteq> ''/'' \<Longrightarrow>
   foldl joinpath r ps = r @ concat (map (\<lambda>p. CHR ''/'' # p) ps)"
proof (induction ps arbitrary: r)
  case Nil
  show ?case by simp
next
  case (Cons p ps)
  have j: "joinpath r p = r @ CHR ''/'' # p" using Cons.prems(2) by (rule joinpath_plain)
  have "r @ CHR ''/'' # p \<noteq> []" using Cons.prems(1) by simp
  moreover have "r @ CHR ''/'' # p \<noteq> ''/''" using Cons.prems(1) by (cases r) simp_all
  ultimately have "foldl joinpath (r @ CHR ''/'' # p) ps
      = (r @ CHR ''/'' # p) @ concat (map (\<lambda>p. CHR ''/'' # p) ps)"
    by (rule Cons.IH)
  then show ?case by (simp add: j)
qed

lemma join_parts_concat:
  "ps \<noteq> [] \<Longrightarrow> CHR ''/'' # join_parts ps = concat (map (\<lambda>p. CHR ''/'' # p) ps)"
  by (induction ps rule: join_parts.induct) simp_all

lemma foldl_joinpath_join_parts:
  assumes "r \<noteq> []" "r \<noteq> ''/''" "ps \<noteq> []"
  shows "foldl joinpath r ps = joinpath r (join_parts ps)"
  using assms by (simp add: foldl_joinpath joinpath_plain join_parts_concat [symmetric])

lemma files_here_paths:
  "(fp, parts, c) \<in> set (files_here root_dir parts0 es) \<Longrightarrow>
   \<exists>name. parts = parts0 @ [name] \<and> fp = joinpath root_dir name"
  by (induction root_dir parts0 es rule: files_here.induct) auto

lemma os_walk_paths:
  "(fp, parts, c) \<in> set (os_walk d n root_dir parts0 es) \<Longrightarrow>
     \<exists>sfx. sfx \<noteq> [] \<and> parts = parts0 @ sfx \<and> fp = foldl joinpath root_dir sfx"
  "(fp, parts, c) \<in> set (walk_dirs d n root_dir parts0 es) \<Longrightarrow>
     \<exists>sfx. sfx \<noteq> [] \<and> parts = parts0 @ sfx \<and> fp = foldl joinpath root_dir sfx"
proof (induction d n root_dir parts0 es and d n root_dir parts0 es rule: os_walk_walk_dirs.induct)
  case (1 d n root_dir parts0 es)
  from "1.prems" have "(fp, parts, c) \<in> set (files_here root_dir parts0 es)
      \<or> (fp, parts, c) \<in> set (walk_dirs d n root_dir parts0 es)" by simp
  then show ?case
  proof
    assume "(fp, parts, c) \<in> set (files_here root_dir parts0 es)"
    then obtain name where "parts = parts0 @ [name]" "fp = joinpath root_dir name"
      using files_here_paths by blast
    then show ?thesis by (intro exI [of _ "[name]"]) simp
  next
    assume "(fp, parts, c) \<in> set (walk_dirs d n root_dir parts0 es)"
    then show ?thesis by (rule "1.IH")
  qed
next
  case (2 d n root_dir parts0)
  then show ?case by simp
next
  case (3 d n root_dir parts0 name c' es)
  then show ?case by simp
next
  case (4 d n root_dir parts0 name sub es)
  from "4.prems" have "(keep_dir d n root_dir name
        \<and> (fp, parts, c) \<in> set (os_walk d n (joinpath root_dir name) (parts0 @ [name]) sub))
      \<or> (fp, parts, c) \<in> set (walk_dirs d n root_dir parts0 es)"
    by (auto split: if_splits)
  then show ?case
  proof
    assume a: "keep_dir d n root_dir name
        \<and> (fp, parts, c) \<in> set (os_walk d n (joinpath root_dir name) (parts0 @ [name]) sub)"
    then obtain sfx where s: "sfx \<noteq> []" "parts = (parts0 @ [name]) @ sfx"
        "fp = foldl joinpath (joinpath root_dir name) sfx"
      using "4.IH"(1) by blast
    then show ?thesis by (intro exI [of _ "name # sfx"]) simp
  next
    assume "(fp, parts, c) \<in> set (walk_dirs d n root_dir parts0 es)"
    then show ?thesis by (rule "4.IH"(2))
  qed
qed

lemma walk_tree_paths:
  assumes "(fp, parts, c) \<in> set (walk_tree d n check_dir tree)"
    and "check_dir \<noteq> []" "check_dir \<noteq> ''/''"
  shows "fp = joinpath check_dir (join_parts parts)"
proof (cases tree)
  case (File x)
  with assms(1) show ?thesis by (simp add: walk_tree_def)
next
  case (Dir es)
  with assms(1) have "(fp, parts, c) \<in> set (os_walk d n check_dir [] es)"
    by (simp add: walk_tree_def)
  then obtain sfx where "sfx \<noteq> []" "parts = [] @ sfx" "fp = foldl joinpath check_dir sfx"
    using os_walk_paths(1) by blast
  then show ?thesis using assms(2,3) by (simp add: foldl_joinpath_join_parts)
qed

lemma check_dir_proper:
  assumes "directory_name \<noteq> []"
  shows "joinpath r directory_name \<noteq> []" "joinpath r directory_name \<noteq> ''/''"
  using assms by (auto simp: joinpath_def append_eq_Cons_conv)

lemma report_violations_Inr:
  assumes "report_violations env d mode scanned = (evs, Inr rels)"
  shows "\<exists>vs. scanned = Inr vs \<and> rels = map rel_path vs"
proof (cases scanned)
  case (Inl e)
  with assms show ?thesis by (simp add: report_violations_def)
next
  case (Inr vs)
  show ?thesis
  proof (cases "vs = []")
    case True
    with assms Inr show ?thesis by (simp add: report_violations_def)
  next
    case False
    obtain evs' r where h: "handle_violations env mode vs = (evs', r)"
      by (cases "handle_violations env mode vs")
    from assms Inr False h have "(case r of Some e \<Rightarrow> Inl e | None \<Rightarrow> Inr (map rel_path vs)) = Inr rels"
      by (simp add: report_violations_def)
    then have "rels = map rel_path vs" by (cases r) simp_all
    with Inr show ?thesis by simp
  qed
qed

lemma check_directory_integrity_Inr:
  assumes "check_directory_integrity env d wl n mode = (evs, Inr rels)" and "rel \<in> set rels"
  shows "\<exists>tree vs v. worktree env (joinpath (repo_root env) d) = Some tree
     \<and> scan_files env d wl n (walk_tree d n (joinpath (repo_root env) d) tree) = Inr vs
     \<and> v \<in> set vs \<and> rel = rel_path v"
proof (cases "worktree env (joinpath (repo_root env) d)")
  case None
  with assms show ?thesis by (simp add: check_directory_integrity_def)
next
  case (Some tree)
  with assms(1) have "report_violations env d mode
      (scan_files env d wl n (walk_tree d n (joinpath (repo_root env) d) tree)) = (evs, Inr rels)"
    by (simp add: check_directory_integrity_def)
  then obtain vs where
    "scan_files env d wl n (walk_tree d n (joinpath (repo_root env) d) tree) = Inr vs"
    "rels = map rel_path vs"
    using report_violations_Inr by blast
  with assms(2) Some show ?thesis by auto
qed

text \<open>
  C8. A file whose full path (the scanned directory joined with the relative path) is
  ignored by \<open>is_ignored\<close> is not in the list that \<open>check_directory_integrity\<close>
  returns, whatever the working tree, the reference tree, the whitelist, the stage
  number and the mode are.
\<close>

theorem ignored_never_violation:
  assumes "directory_name \<noteq> []"
    and "check_directory_integrity env directory_name wl n mode = (evs, Inr rels)"
    and "is_ignored (joinpath (joinpath (repo_root env) directory_name) rel)"
  shows "rel \<notin> set rels"
proof
  let ?check_dir = "joinpath (repo_root env) directory_name"
  assume "rel \<in> set rels"
  with assms(2) obtain tree vs v where
    w: "scan_files env directory_name wl n (walk_tree directory_name n ?check_dir tree) = Inr vs"
    and v: "v \<in> set vs" "rel = rel_path v"
    using check_directory_integrity_Inr by blast
  from scan_files_sound [OF w v(1)] obtain fp parts c where
    f: "(fp, parts, c) \<in> set (walk_tree directory_name n ?check_dir tree)"
      "file_path v = fp" "rel_path v = join_parts parts" "\<not> is_ignored fp"
    by blast
  have "fp = joinpath ?check_dir (join_parts parts)"
    using f(1) check_dir_proper [OF assms(1)] by (rule walk_tree_paths)
  with f(3,4) v(2) assms(3) show False by simp
qed

theorem ignored_never_violation_witness:
  "''keos-projects'' \<noteq> []
   \<and> check_directory_integrity scenario_env ''keos-projects'' [''foo.txt'', ''bar.txt''] 2 ''warn''
       = ([Print (nl @ ''keos-projects/ - 1 violation(s):'' @ nl),
           Print (''  keos-project1/baz.txt (MODIFIED)'' @ nl)],
          Inr [''keos-project1/baz.txt''])
   \<and> is_ignored (joinpath (joinpath (repo_root scenario_env) ''keos-projects'') ''keos-project1/lib.o'')
   \<and> ''keos-project1/lib.o'' \<notin> set [''keos-project1/baz.txt'']"
proof -
  have a: "''keos-projects'' \<noteq> []" by simp
  have b: "check_directory_integrity scenario_env ''keos-projects'' [''foo.txt'', ''bar.txt''] 2 ''warn''
       = ([Print (nl @ ''keos-projects/ - 1 violation(s):'' @ nl),
           Print (''  keos-project1/baz.txt (MODIFIED)'' @ nl)],
          Inr [''keos-project1/baz.txt''])"
    by code_simp
  have c: "is_ignored (joinpath (joinpath (repo_root scenario_env) ''keos-projects'') ''keos-project1/lib.o'')"
    by code_simp
  from a b c ignored_never_violation [OF a b c] show ?thesis by (intro conjI)
qed

text \<open>
  C9. A scanned file with no reference file at the same relative path under the
  reference root is never in the returned list, and the whole outcome of the scan
  (what is printed and copied, the list returned or the exception raised) is the
  outcome of the same scan with every such file left out of the walk, in every mode.
\<close>

theorem missing_reference_skipped:
  "(\<forall>evs rels. check_directory_integrity env directory_name wl n mode = (evs, Inr rels) \<longrightarrow>
       (\<forall>rel \<in> set rels. template env (original_path env directory_name rel) \<noteq> Absent))
   \<and> (\<forall>tree. worktree env (joinpath (repo_root env) directory_name) = Some tree \<longrightarrow>
         check_directory_integrity env directory_name wl n mode =
           report_violations env directory_name mode
             (scan_files env directory_name wl n
                (filter (has_reference env directory_name)
                   (walk_tree directory_name n (joinpath (repo_root env) directory_name) tree))))"
proof (intro conjI allI impI ballI)
  fix evs rels rel
  assume "check_directory_integrity env directory_name wl n mode = (evs, Inr rels)"
    and "rel \<in> set rels"
  then obtain tree vs v where
    w: "scan_files env directory_name wl n
          (walk_tree directory_name n (joinpath (repo_root env) directory_name) tree) = Inr vs"
    and v: "v \<in> set vs" "rel = rel_path v"
    using check_directory_integrity_Inr by blast
  from scan_files_sound [OF w v(1)] v(2)
  show "template env (original_path env directory_name rel) \<noteq> Absent" by auto
next
  fix tree
  assume "worktree env (joinpath (repo_root env) directory_name) = Some tree"
  then show "check_directory_integrity env directory_name wl n mode =
           report_violations env directory_name mode
             (scan_files env directory_name wl n
                (filter (has_reference env directory_name)
                   (walk_tree directory_name n (joinpath (repo_root env) directory_name) tree)))"
    by (simp add: check_directory_integrity_def scan_files_filter)
qed

theorem missing_reference_skipped_witness:
  "check_directory_integrity scenario_env ''keos-projects'' [''foo.txt'', ''bar.txt''] 2 ''warn''
       = ([Print (nl @ ''keos-projects/ - 1 violation(s):'' @ nl),
           Print (''  keos-project1/baz.txt (MODIFIED)'' @ nl)],
          Inr [''keos-project1/baz.txt''])
   \<and> template scenario_env (original_path scenario_env ''keos-projects'' ''keos-project1/baz.txt'')
       \<noteq> Absent
   \<and> worktree scenario_env (joinpath (repo_root scenario_env) ''keos-projects'') = Some scenario_tree
   \<and> check_directory_integrity scenario_env ''keos-projects'' [''foo.txt'', ''bar.txt''] 2 ''warn''
       = report_violations scenario_env ''keos-projects'' ''warn''
           (scan_files scenario_env ''keos-projects'' [''foo.txt'', ''bar.txt''] 2
              (filter (has_reference scenario_env ''keos-projects'')
                 (walk_tree ''keos-projects'' 2
                    (joinpath (repo_root scenario_env) ''keos-projects'') scenario_tree)))"
proof -
  note t = missing_reference_skipped
    [of scenario_env "''keos-projects''" "[''foo.txt'', ''bar.txt'']" 2 "''warn''"]
  have b: "check_directory_integrity scenario_env ''keos-projects'' [''foo.txt'', ''bar.txt''] 2 ''warn''
       = ([Print (nl @ ''keos-projects/ - 1 violation(s):'' @ nl),
           Print (''  keos-project1/baz.txt (MODIFIED)'' @ nl)],
          Inr [''keos-project1/baz.txt''])"
    by code_simp
  have w: "worktree scenario_env (joinpath (repo_root scenario_env) ''keos-projects'')
      = Some scenario_tree"
    by code_simp
  from t b have "\<forall>rel \<in> set [''keos-project1/baz.txt''].
      template scenario_env (original_path scenario_env ''keos-projects'' rel) \<noteq> Absent"
    by blast
  then have r: "template scenario_env
      (original_path scenario_env ''keos-projects'' ''keos-project1/baz.txt'') \<noteq> Absent"
    by (simp only: list.set ball_simps simp_thms)
  from t w have f: "check_directory_integrity scenario_env ''keos-projects'' [''foo.txt'', ''bar.txt''] 2 ''warn''
       = report_violations scenario_env ''keos-projects'' ''warn''
           (scan_files scenario_env ''keos-projects'' [''foo.txt'', ''bar.txt''] 2
              (filter (has_reference scenario_env ''keos-projects'')
                 (walk_tree ''keos-projects'' 2
                    (joinpath (repo_root scenario_env) ''keos-projects'') scenario_tree)))"
    by blast
  from b r w f show ?thesis by (intro conjI)
qed

text \<open>
  C10. When nothing exists at the scanned directory's path, the result is the empty
  list, with nothing printed or copied and no exception, for every whitelist, stage
  number and mode.
\<close>

theorem missing_directory_no_violations:
  assumes "worktree env (joinpath (repo_root env) directory_name) = None"
  shows "check_directory_integrity env directory_name wl n mode = ([], Inr [])"
  using assms by (simp add: check_directory_integrity_def)

theorem missing_directory_no_violations_witness:
  "worktree scenario_env (joinpath (repo_root scenario_env) ''fs'') = None
   \<and> check_directory_integrity scenario_env ''fs'' [] 0 ''override'' = ([], Inr [])"
proof -
  have a: "worktree scenario_env (joinpath (repo_root scenario_env) ''fs'') = None"
    by code_simp
  from a missing_directory_no_violations [OF a] show ?thesis by (rule conjI)
qed

section \<open>Facts about the process supervisor\<close>

lemma takeWhile_all_append:
  "\<forall>x \<in> set xs. P x \<Longrightarrow> takeWhile P (xs @ ys) = xs @ takeWhile P ys"
  by (induction xs) simp_all

lemma takeWhile_all:
  "\<forall>x \<in> set xs. P x \<Longrightarrow> takeWhile P xs = xs"
  by (induction xs) simp_all

lemma live_loop_written:
  "fst (live_loop outs buf) = filter (\<lambda>out. \<not> py_in CLEAR_SCREEN out) outs"
  by (induction outs arbitrary: buf) (simp_all add: case_prod_beta)

lemma after_last_clear_Cons:
  "after_last_clear (out # rest) =
     (if \<exists>x \<in> set rest. py_in CLEAR_SCREEN x then after_last_clear rest
      else if py_in CLEAR_SCREEN out then rest else out # rest)"
proof (cases "\<exists>x \<in> set rest. py_in CLEAR_SCREEN x")
  case True
  then have "\<exists>x \<in> set (rev rest). \<not> \<not> py_in CLEAR_SCREEN x" by simp
  then have "takeWhile (\<lambda>out. \<not> py_in CLEAR_SCREEN out) (rev rest @ [out])
      = takeWhile (\<lambda>out. \<not> py_in CLEAR_SCREEN out) (rev rest)"
    by (metis takeWhile_append1)
  with True show ?thesis by (simp add: after_last_clear_def)
next
  case False
  then have "\<forall>x \<in> set (rev rest). \<not> py_in CLEAR_SCREEN x" by simp
  then have "takeWhile (\<lambda>out. \<not> py_in CLEAR_SCREEN out) (rev rest @ [out])
      = rev rest @ takeWhile (\<lambda>out. \<not> py_in CLEAR_SCREEN out) [out]"
    by (rule takeWhile_all_append)
  with False show ?thesis by (simp add: after_last_clear_def)
qed

lemma live_loop_buffer:
  "snd (live_loop outs buf) =
     (if \<exists>x \<in> set outs. py_in CLEAR_SCREEN x then concat (after_last_clear outs)
      else buf @ concat outs)"
proof (induction outs arbitrary: buf)
  case Nil
  show ?case by simp
next
  case (Cons out rest)
  show ?case
  proof (cases "py_in CLEAR_SCREEN out")
    case True
    then show ?thesis by (simp add: Cons.IH after_last_clear_Cons)
  next
    case False
    then show ?thesis by (simp add: Cons.IH after_last_clear_Cons case_prod_beta)
  qed
qed

lemma live_loop_from_empty:
  "live_loop outs [] =
     (filter (\<lambda>out. \<not> py_in CLEAR_SCREEN out) outs, concat (after_last_clear outs))"
proof -
  have "snd (live_loop outs []) = concat (after_last_clear outs)"
  proof (cases "\<exists>x \<in> set outs. py_in CLEAR_SCREEN x")
    case True
    then show ?thesis by (simp add: live_loop_buffer)
  next
    case False
    then have "\<forall>x \<in> set (rev outs). \<not> py_in CLEAR_SCREEN x" by simp
    then have "takeWhile (\<lambda>out. \<not> py_in CLEAR_SCREEN out) (rev outs) = rev outs"
      by (rule takeWhile_all)
    then have h: "after_last_clear outs = outs"
      unfolding after_last_clear_def by (simp only: rev_rev_ident)
    from False show ?thesis by (simp add: live_loop_buffer h)
  qed
  then show ?thesis using live_loop_written [of outs "[]"] by (simp add: prod_eq_iff)
qed

lemma grade_single_live:
  assumes "setup_raises b = None" and "live_run b = Lines outs"
  shows "grade_single b run_command target cpu mem timeout True =
     ([Setup_kernel_arguments (''--quite '' @ target),
       Run_emulator True (run_command @ [''-smp'', str_nat cpu, ''-m'', mem]) None]
      @ map Write (filter (\<lambda>out. \<not> py_in CLEAR_SCREEN out) outs)
      @ [Print (''---------'' @ nl)]
      @ (if utf8_valid (concat (after_last_clear outs)) then []
         else [Print_exn (Exn UnicodeDecodeError ''utf-8'')]),
      Inr (if utf8_valid (concat (after_last_clear outs)) then concat (after_last_clear outs)
           else ''timeout''))"
  using assms
  by (simp add: grade_single_def Let_def live_loop_from_empty except_Exception_def)


lemma clear_stream_run:
  "grade_single clear_stream [''qemu''] ''t'' 4 ''512M'' 30 True =
     ([Setup_kernel_arguments ''--quite t'',
       Run_emulator True [''qemu'', ''-smp'', ''4'', ''-m'', ''512M''] None,
       Write (''line1'' @ nl), Write (''line2'' @ nl), Print (''---------'' @ nl)],
      Inr (''line2'' @ nl))"
  by code_simp


text \<open>
  C1, as the code has it. In live mode every line without the clear-screen sequence
  is written to standard output, in order, and a line with the sequence is not
  written; the value returned is the concatenation of the lines after the last line
  with the sequence (\<open>timeout\<close> if that is not UTF-8). For the stream \<open>line1\<close>,
  clear-screen, \<open>line2\<close> the value is \<open>line2\<close> and the lines written are \<open>line1\<close>
  and \<open>line2\<close>.
\<close>

theorem live_capture_skips_clear_lines:
  assumes "setup_raises b = None" and "live_run b = Lines outs"
  shows "grade_single b run_command target cpu mem timeout True =
     ([Setup_kernel_arguments (''--quite '' @ target),
       Run_emulator True (run_command @ [''-smp'', str_nat cpu, ''-m'', mem]) None]
      @ map Write (filter (\<lambda>out. \<not> py_in CLEAR_SCREEN out) outs)
      @ [Print (''---------'' @ nl)]
      @ (if utf8_valid (concat (after_last_clear outs)) then []
         else [Print_exn (Exn UnicodeDecodeError ''utf-8'')]),
      Inr (if utf8_valid (concat (after_last_clear outs)) then concat (after_last_clear outs)
           else ''timeout''))
   \<and> grade_single clear_stream [''qemu''] ''t'' 4 ''512M'' 30 True =
     ([Setup_kernel_arguments ''--quite t'',
       Run_emulator True [''qemu'', ''-smp'', ''4'', ''-m'', ''512M''] None,
       Write (''line1'' @ nl), Write (''line2'' @ nl), Print (''---------'' @ nl)],
      Inr (''line2'' @ nl))"
  using grade_single_live [OF assms] clear_stream_run by (rule conjI)

theorem live_capture_skips_clear_lines_witness:
  "setup_raises clear_stream = None
   \<and> live_run clear_stream = Lines [''line1'' @ nl, CLEAR_SCREEN, ''line2'' @ nl]
   \<and> filter (\<lambda>out. \<not> py_in CLEAR_SCREEN out) [''line1'' @ nl, CLEAR_SCREEN, ''line2'' @ nl]
       = [''line1'' @ nl, ''line2'' @ nl]
   \<and> concat (after_last_clear [''line1'' @ nl, CLEAR_SCREEN, ''line2'' @ nl]) = ''line2'' @ nl
   \<and> fst (grade_single clear_stream [''qemu''] ''t'' 4 ''512M'' 30 True) =
       [Setup_kernel_arguments (''--quite '' @ ''t''),
        Run_emulator True ([''qemu''] @ [''-smp'', str_nat 4, ''-m'', ''512M'']) None]
       @ map Write (filter (\<lambda>out. \<not> py_in CLEAR_SCREEN out)
                      [''line1'' @ nl, CLEAR_SCREEN, ''line2'' @ nl])
       @ [Print (''---------'' @ nl)]
       @ (if utf8_valid (concat (after_last_clear [''line1'' @ nl, CLEAR_SCREEN, ''line2'' @ nl]))
          then [] else [Print_exn (Exn UnicodeDecodeError ''utf-8'')])"
proof -
  have a: "setup_raises clear_stream = None" by code_simp
  have b: "live_run clear_stream = Lines [''line1'' @ nl, CLEAR_SCREEN, ''line2'' @ nl]"
    by code_simp
  have c: "filter (\<lambda>out. \<not> py_in CLEAR_SCREEN out) [''line1'' @ nl, CLEAR_SCREEN, ''line2'' @ nl]
       = [''line1'' @ nl, ''line2'' @ nl]"
    by code_simp
  have d: "concat (after_last_clear [''line1'' @ nl, CLEAR_SCREEN, ''line2'' @ nl]) = ''line2'' @ nl"
    by code_simp
  from live_capture_skips_clear_lines [OF a b, of "[''qemu'']" "''t''" 4 "''512M''" 30]
  have "grade_single clear_stream [''qemu''] ''t'' 4 ''512M'' 30 True =
     ([Setup_kernel_arguments (''--quite '' @ ''t''),
       Run_emulator True ([''qemu''] @ [''-smp'', str_nat 4, ''-m'', ''512M'']) None]
      @ map Write (filter (\<lambda>out. \<not> py_in CLEAR_SCREEN out)
                     [''line1'' @ nl, CLEAR_SCREEN, ''line2'' @ nl])
      @ [Print (''---------'' @ nl)]
      @ (if utf8_valid (concat (after_last_clear [''line1'' @ nl, CLEAR_SCREEN, ''line2'' @ nl]))
         then [] else [Print_exn (Exn UnicodeDecodeError ''utf-8'')]),
      Inr (if utf8_valid (concat (after_last_clear [''line1'' @ nl, CLEAR_SCREEN, ''line2'' @ nl]))
           then concat (after_last_clear [''line1'' @ nl, CLEAR_SCREEN, ''line2'' @ nl])
           else ''timeout''))"
    by (rule conjunct1)
  then have e: "fst (grade_single clear_stream [''qemu''] ''t'' 4 ''512M'' 30 True) =
       [Setup_kernel_arguments (''--quite '' @ ''t''),
        Run_emulator True ([''qemu''] @ [''-smp'', str_nat 4, ''-m'', ''512M'']) None]
       @ map Write (filter (\<lambda>out. \<not> py_in CLEAR_SCREEN out)
                      [''line1'' @ nl, CLEAR_SCREEN, ''line2'' @ nl])
       @ [Print (''---------'' @ nl)]
       @ (if utf8_valid (concat (after_last_clear [''line1'' @ nl, CLEAR_SCREEN, ''line2'' @ nl]))
          then [] else [Print_exn (Exn UnicodeDecodeError ''utf-8'')])"
    by (simp only: fst_conv)
  from a b c d e show ?thesis by (intro conjI)
qed

text \<open>
  C1 as stated fails: of the three lines of the stream, the clear-screen line is
  not written to standard output.
\<close>

theorem live_capture_clear_line_counterexample:
  "live_run clear_stream = Lines [''line1'' @ nl, CLEAR_SCREEN, ''line2'' @ nl]
   \<and> fst (grade_single clear_stream [''qemu''] ''t'' 4 ''512M'' 30 True) =
       [Setup_kernel_arguments ''--quite t'',
        Run_emulator True [''qemu'', ''-smp'', ''4'', ''-m'', ''512M''] None,
        Write (''line1'' @ nl), Write (''line2'' @ nl), Print (''---------'' @ nl)]
   \<and> Write CLEAR_SCREEN \<notin> set (fst (grade_single clear_stream [''qemu''] ''t'' 4 ''512M'' 30 True))"
  by code_simp

section \<open>Facts about grading and scoring\<close>




lemma timeout_not_marker: "\<not> py_in MARKER ''timeout''"
  by code_simp

lemma grade_single_blocking_raises:
  assumes "setup_raises b = None" and "blocking_run b = Raised e" and "is_Exception e"
  shows "grade_single b run_command target cpu mem timeout False =
     ([Setup_kernel_arguments (''--quite '' @ target),
       Run_emulator False (run_command @ [''-smp'', str_nat cpu, ''-m'', mem]) (Some timeout),
       Print_exn e],
      Inr ''timeout'')"
  using assms by (simp add: grade_single_def Let_def except_Exception_def)

lemma grade_test_failed:
  assumes "\<not> filtered_out filt name"
    and "grade_single (world rname name) run_command name (test_cpu conf) (test_mem conf)
           (test_timeout conf) (filt \<noteq> None) = (evs, Inr out)"
    and "\<not> py_in MARKER out"
    and "\<not> (filt \<noteq> None \<and> py_in ''panic'' out)"
  shows "grade_test world run_command filt rname name conf =
     (announce filt name @ evs @ verdict filt False, Tested False out)"
  using assms by (simp add: grade_test_def Let_def)

lemma grade_test_batch_timeout:
  assumes "setup_raises (world rname name) = None"
    and "blocking_run (world rname name) = Raised e" and "is_Exception e"
  shows "grade_test world run_command None rname name conf =
     ([Print (''Running test: '' @ name @ '' ... ''),
       Setup_kernel_arguments (''--quite '' @ name),
       Run_emulator False (run_command @ [''-smp'', str_nat (test_cpu conf), ''-m'', test_mem conf])
         (Some (test_timeout conf)),
       Print_exn e, Print (''fail'' @ nl)],
      Tested False ''timeout'')"
proof -
  let ?evs = "[Setup_kernel_arguments (''--quite '' @ name),
       Run_emulator False (run_command @ [''-smp'', str_nat (test_cpu conf), ''-m'', test_mem conf])
         (Some (test_timeout conf)),
       Print_exn e]"
  have f: "\<not> filtered_out None name" by (simp add: filtered_out_def)
  have l: "((None :: string list option) \<noteq> None) = False" by simp
  have gs: "grade_single (world rname name) run_command name (test_cpu conf) (test_mem conf)
           (test_timeout conf) ((None :: string list option) \<noteq> None) = (?evs, Inr ''timeout'')"
    unfolding l by (rule grade_single_blocking_raises [OF assms])
  have np: "\<not> ((None :: string list option) \<noteq> None \<and> py_in ''panic'' ''timeout'')"
    unfolding l by (simp only: simp_thms)
  have "grade_test world run_command None rname name conf =
     (announce None name @ ?evs @ verdict None False, Tested False ''timeout'')"
    using f gs timeout_not_marker np by (rule grade_test_failed)
  also have "announce None name @ ?evs @ verdict None False =
     [Print (''Running test: '' @ name @ '' ... ''),
       Setup_kernel_arguments (''--quite '' @ name),
       Run_emulator False (run_command @ [''-smp'', str_nat (test_cpu conf), ''-m'', test_mem conf])
         (Some (test_timeout conf)),
       Print_exn e, Print (''fail'' @ nl)]"
    by (simp add: announce_def verdict_def)
  finally show ?thesis .
qed

lemma grade_tests_Tested:
  "grade_test world run_command filt rname name conf = (evs, Tested passed out) \<Longrightarrow>
   grade_tests world run_command filt rname ((name, conf) # rest) gr =
     prepend evs (grade_tests world run_command filt rname rest
                    (record_result rname name (passed, out) gr))"
  by simp


lemma except_Exception_no_hook:
  "Run_post_hook cmd t \<notin> set evs \<Longrightarrow> Run_post_hook cmd t \<notin> set (fst (except_Exception evs e))"
  by (simp add: except_Exception_def)

lemma grade_single_no_hook:
  "Run_post_hook cmd t \<notin> set (fst (grade_single b run_command target cpu mem timeout live))"
proof (cases "setup_raises b")
  case (Some e)
  then show ?thesis by (simp add: grade_single_def Let_def)
next
  case None
  show ?thesis
  proof (cases live)
    case True
    show ?thesis
    proof (cases "live_run b")
      case (Popen_raised e)
      with None True show ?thesis
        by (simp add: grade_single_def Let_def except_Exception_no_hook)
    next
      case (Lines outs)
      obtain written buf where l: "live_loop outs [] = (written, buf)"
        by (cases "live_loop outs []")
      have "Run_post_hook cmd t \<notin> set (map Write written)" by auto
      with None True Lines l show ?thesis
        by (simp add: grade_single_def Let_def except_Exception_no_hook)
    qed
  next
    case False
    with None show ?thesis
      by (cases "blocking_run b") (simp_all add: grade_single_def Let_def except_Exception_no_hook)
  qed
qed

lemma announce_no_hook: "Run_post_hook cmd t \<notin> set (announce filt name)"
  by (simp add: announce_def)

lemma verdict_no_hook: "Run_post_hook cmd t \<notin> set (verdict filt p)"
  by (simp add: verdict_def)

lemma run_post_hook_events:
  "fst (run_post_hook b cmd t out) = [Run_post_hook cmd t]"
  by (simp add: run_post_hook_def split: hook_result.split)


lemma grade_test_hook_event:
  assumes "Run_post_hook cmd t \<in> set (fst (grade_test world rc filt rname name conf))"
  shows "(\<exists>evs out0. grade_single (world rname name) rc name (test_cpu conf) (test_mem conf)
              (test_timeout conf) (filt \<noteq> None) = (evs, Inr out0) \<and> py_in MARKER out0)
       \<and> conf_post_hook conf = Some (Hook_list cmd) \<and> t = test_timeout conf"
  using assms grade_single_no_hook [of cmd t "world rname name" rc name "test_cpu conf"
        "test_mem conf" "test_timeout conf" "filt \<noteq> None"]
  by (auto simp: grade_test_def Let_def run_post_hook_def announce_def verdict_def
      split: if_splits prod.splits sum.splits option.splits post_hook.splits hook_result.splits)

lemma grade_test_hook:
  assumes "\<not> filtered_out filt name"
    and "grade_single (world rname name) rc name (test_cpu conf) (test_mem conf)
           (test_timeout conf) (filt \<noteq> None) = (evs, Inr out0)"
    and "py_in MARKER out0"
    and "\<not> (filt \<noteq> None \<and> py_in ''panic'' out0)"
    and "conf_post_hook conf = Some (Hook_list cmd)"
  shows "grade_test world rc filt rname name conf =
     (announce filt name @ evs @ [Run_post_hook cmd (test_timeout conf)]
        @ verdict filt (\<exists>stderr. hook_run (world rname name) = Exited 0 stderr),
      case hook_run (world rname name) of
        Exited c stderr \<Rightarrow>
          Tested (c = 0)
            (if c = 0 then out0
             else out0 @ nl @ ''POST-HOOK [`'' @ py_join '' '' cmd @ ''`] Failed: '' @ stderr)
      | Hook_raised e \<Rightarrow> Tested False out0)"
  using assms
  by (cases "hook_run (world rname name)") (simp_all add: grade_test_def Let_def run_post_hook_def)









text \<open>
  C5. In blocking mode, when \<open>subprocess.run\<close> raises \<open>TimeoutExpired\<close> or any other
  exception of class \<open>Exception\<close>, \<open>grade_single\<close> returns exactly \<open>timeout\<close>, whatever
  the emulator had printed; \<open>grade\<close> records the test as failed with that output
  and goes on with the remaining tests of the rubric.
\<close>

theorem timeout_sentinel:
  assumes "setup_raises (world rname name) = None"
    and "blocking_run (world rname name) = Raised e"
    and "(\<exists>msg. e = Exn TimeoutExpired msg) \<or> is_Exception e"
  shows "grade_single (world rname name) run_command name cpu mem timeout False =
     ([Setup_kernel_arguments (''--quite '' @ name),
       Run_emulator False (run_command @ [''-smp'', str_nat cpu, ''-m'', mem]) (Some timeout),
       Print_exn e],
      Inr ''timeout'')
   \<and> grade_tests world run_command None rname ((name, conf) # rest) gr =
       prepend
         [Print (''Running test: '' @ name @ '' ... ''),
          Setup_kernel_arguments (''--quite '' @ name),
          Run_emulator False
            (run_command @ [''-smp'', str_nat (test_cpu conf), ''-m'', test_mem conf])
            (Some (test_timeout conf)),
          Print_exn e, Print (''fail'' @ nl)]
         (grade_tests world run_command None rname rest
            (record_result rname name (False, ''timeout'') gr))"
proof -
  from assms(3) have e: "is_Exception e" by auto
  show ?thesis
    using grade_single_blocking_raises [where b = "world rname name", OF assms(1,2) e]
      grade_tests_Tested [OF grade_test_batch_timeout
        [where world = world and rname = rname and name = name, OF assms(1,2) e]]
    by (rule conjI)
qed

theorem timeout_sentinel_witness:
  "setup_raises (times_out_world ''core'' ''t1'') = None
   \<and> blocking_run (times_out_world ''core'' ''t1'') = Raised (Exn TimeoutExpired ''timed out'')
   \<and> snd (grade_single (times_out_world ''core'' ''t1'') [''qemu''] ''t1'' 4 ''512M'' 30 False)
       = Inr ''timeout''
   \<and> snd (grade_tests times_out_world [''qemu''] None ''core'' [(''t1'', no_conf)] [(''core'', [])])
       = Inr (Some [(''core'', [(''t1'', False, ''timeout'')])])"
proof -
  have a: "setup_raises (times_out_world ''core'' ''t1'') = None" by code_simp
  have b: "blocking_run (times_out_world ''core'' ''t1'') = Raised (Exn TimeoutExpired ''timed out'')"
    by code_simp
  have c: "(\<exists>msg. Exn TimeoutExpired ''timed out'' = Exn TimeoutExpired msg)
      \<or> is_Exception (Exn TimeoutExpired ''timed out'')"
    by blast
  note t = timeout_sentinel [where world = times_out_world and rname = "''core''"
      and name = "''t1''" and run_command = "[''qemu'']" and cpu = 4 and mem = "''512M''"
      and timeout = 30 and conf = no_conf and rest = "[]" and gr = "[(''core'', [])]", OF a b c]
  from t have "grade_single (times_out_world ''core'' ''t1'') [''qemu''] ''t1'' 4 ''512M'' 30 False =
     ([Setup_kernel_arguments (''--quite '' @ ''t1''),
       Run_emulator False ([''qemu''] @ [''-smp'', str_nat 4, ''-m'', ''512M'']) (Some 30),
       Print_exn (Exn TimeoutExpired ''timed out'')],
      Inr ''timeout'')"
    by (rule conjunct1)
  then have d: "snd (grade_single (times_out_world ''core'' ''t1'') [''qemu''] ''t1'' 4 ''512M'' 30 False)
       = Inr ''timeout''"
    by (simp only: snd_conv)
  have r: "record_result ''core'' ''t1'' (False, ''timeout'') [(''core'', [])]
      = [(''core'', [(''t1'', False, ''timeout'')])]"
    by code_simp
  from t have "grade_tests times_out_world [''qemu''] None ''core'' [(''t1'', no_conf)] [(''core'', [])] =
       prepend
         [Print (''Running test: '' @ ''t1'' @ '' ... ''),
          Setup_kernel_arguments (''--quite '' @ ''t1''),
          Run_emulator False
            ([''qemu''] @ [''-smp'', str_nat (test_cpu no_conf), ''-m'', test_mem no_conf])
            (Some (test_timeout no_conf)),
          Print_exn (Exn TimeoutExpired ''timed out''), Print (''fail'' @ nl)]
         (grade_tests times_out_world [''qemu''] None ''core'' []
            (record_result ''core'' ''t1'' (False, ''timeout'') [(''core'', [])]))"
    by (rule conjunct2)
  then have f: "snd (grade_tests times_out_world [''qemu''] None ''core'' [(''t1'', no_conf)] [(''core'', [])])
       = Inr (Some [(''core'', [(''t1'', False, ''timeout'')])])"
    by (simp only: r grade_tests.simps prepend.simps snd_conv)
  from a b d f show ?thesis by (intro conjI)
qed

lemma hook_fails_single:
  "grade_single (hook_fails_world ''core'' ''t1'') [''qemu''] ''t1'' (test_cpu hook_conf)
       (test_mem hook_conf) (test_timeout hook_conf) ((None :: string list option) \<noteq> None) =
     ([Setup_kernel_arguments ''--quite t1'',
       Run_emulator False [''qemu'', ''-smp'', ''4'', ''-m'', ''512M''] (Some 5)],
      Inr ''test result: ok. 1 passed; 0 failed'')"
  by code_simp

lemma hook_raises_single:
  "grade_single (hook_raises_world ''core'' ''t1'') [''qemu''] ''t1'' (test_cpu hook_conf)
       (test_mem hook_conf) (test_timeout hook_conf) ((None :: string list option) \<noteq> None) =
     ([Setup_kernel_arguments ''--quite t1'',
       Run_emulator False [''qemu'', ''-smp'', ''4'', ''-m'', ''512M''] (Some 5)],
      Inr ''test result: ok. 1 passed; 0 failed'')"
  by code_simp

lemma hook_scenario_facts:
  "\<not> filtered_out None ''t1''"
  "py_in MARKER ''test result: ok. 1 passed; 0 failed''"
  "\<not> ((None :: string list option) \<noteq> None \<and> py_in ''panic'' ''test result: ok. 1 passed; 0 failed'')"
  "conf_post_hook hook_conf = Some (Hook_list [''check'', ''disk''])"
  "hook_run (hook_fails_world ''core'' ''t1'') = Exited 1 ''bad''"
  "hook_run (hook_raises_world ''core'' ''t1'') = Hook_raised (Exn SystemExit ''1'')"
  "Run_post_hook [''check'', ''disk''] 5
     \<in> set (fst (grade_test hook_fails_world [''qemu''] None ''core'' ''t1'' hook_conf))"
  "test_timeout hook_conf = 5"
  by code_simp+

text \<open>
  C7. A post-hook command is run only for a test whose output from the emulator
  contains the success marker and whose configuration has a post-hook list, and it
  is run with the test's timeout. When it is run, the test passes exactly when the
  command exits with status 0; an exit with another status appends the failure text
  to the output; an exception of any class gives a failed result with the output
  unchanged, and the loop over the tests goes on.
\<close>

theorem post_hook_rules:
  "(\<forall>cmd t. Run_post_hook cmd t \<in> set (fst (grade_test world rc filt rname name conf)) \<longrightarrow>
      (\<exists>evs out0. grade_single (world rname name) rc name (test_cpu conf) (test_mem conf)
          (test_timeout conf) (filt \<noteq> None) = (evs, Inr out0) \<and> py_in MARKER out0)
      \<and> conf_post_hook conf = Some (Hook_list cmd) \<and> t = test_timeout conf)
   \<and> (\<forall>cmd evs out0.
        \<not> filtered_out filt name
        \<and> grade_single (world rname name) rc name (test_cpu conf) (test_mem conf)
            (test_timeout conf) (filt \<noteq> None) = (evs, Inr out0)
        \<and> py_in MARKER out0
        \<and> \<not> (filt \<noteq> None \<and> py_in ''panic'' out0)
        \<and> conf_post_hook conf = Some (Hook_list cmd) \<longrightarrow>
        fst (grade_test world rc filt rname name conf) =
          announce filt name @ evs @ [Run_post_hook cmd (test_timeout conf)]
          @ verdict filt (\<exists>stderr. hook_run (world rname name) = Exited 0 stderr)
        \<and> (\<forall>c stderr. hook_run (world rname name) = Exited c stderr \<longrightarrow>
              snd (grade_test world rc filt rname name conf) =
                Tested (c = 0)
                  (if c = 0 then out0
                   else out0 @ nl @ ''POST-HOOK [`'' @ py_join '' '' cmd @ ''`] Failed: '' @ stderr))
        \<and> (\<forall>e rest gr. hook_run (world rname name) = Hook_raised e \<longrightarrow>
              snd (grade_test world rc filt rname name conf) = Tested False out0
              \<and> grade_tests world rc filt rname ((name, conf) # rest) gr =
                  prepend (fst (grade_test world rc filt rname name conf))
                    (grade_tests world rc filt rname rest
                       (record_result rname name (False, out0) gr))))"
proof (rule conjI)
  show "\<forall>cmd t. Run_post_hook cmd t \<in> set (fst (grade_test world rc filt rname name conf)) \<longrightarrow>
      (\<exists>evs out0. grade_single (world rname name) rc name (test_cpu conf) (test_mem conf)
          (test_timeout conf) (filt \<noteq> None) = (evs, Inr out0) \<and> py_in MARKER out0)
      \<and> conf_post_hook conf = Some (Hook_list cmd) \<and> t = test_timeout conf"
  proof (intro allI impI)
    fix cmd t
    assume "Run_post_hook cmd t \<in> set (fst (grade_test world rc filt rname name conf))"
    then show "(\<exists>evs out0. grade_single (world rname name) rc name (test_cpu conf) (test_mem conf)
          (test_timeout conf) (filt \<noteq> None) = (evs, Inr out0) \<and> py_in MARKER out0)
      \<and> conf_post_hook conf = Some (Hook_list cmd) \<and> t = test_timeout conf"
      by (rule grade_test_hook_event)
  qed
next
  show "\<forall>cmd evs out0.
        \<not> filtered_out filt name
        \<and> grade_single (world rname name) rc name (test_cpu conf) (test_mem conf)
            (test_timeout conf) (filt \<noteq> None) = (evs, Inr out0)
        \<and> py_in MARKER out0
        \<and> \<not> (filt \<noteq> None \<and> py_in ''panic'' out0)
        \<and> conf_post_hook conf = Some (Hook_list cmd) \<longrightarrow>
        fst (grade_test world rc filt rname name conf) =
          announce filt name @ evs @ [Run_post_hook cmd (test_timeout conf)]
          @ verdict filt (\<exists>stderr. hook_run (world rname name) = Exited 0 stderr)
        \<and> (\<forall>c stderr. hook_run (world rname name) = Exited c stderr \<longrightarrow>
              snd (grade_test world rc filt rname name conf) =
                Tested (c = 0)
                  (if c = 0 then out0
                   else out0 @ nl @ ''POST-HOOK [`'' @ py_join '' '' cmd @ ''`] Failed: '' @ stderr))
        \<and> (\<forall>e rest gr. hook_run (world rname name) = Hook_raised e \<longrightarrow>
              snd (grade_test world rc filt rname name conf) = Tested False out0
              \<and> grade_tests world rc filt rname ((name, conf) # rest) gr =
                  prepend (fst (grade_test world rc filt rname name conf))
                    (grade_tests world rc filt rname rest
                       (record_result rname name (False, out0) gr)))"
  proof (intro allI impI)
    fix cmd evs out0
    assume a: "\<not> filtered_out filt name
        \<and> grade_single (world rname name) rc name (test_cpu conf) (test_mem conf)
            (test_timeout conf) (filt \<noteq> None) = (evs, Inr out0)
        \<and> py_in MARKER out0
        \<and> \<not> (filt \<noteq> None \<and> py_in ''panic'' out0)
        \<and> conf_post_hook conf = Some (Hook_list cmd)"
    then have g: "grade_test world rc filt rname name conf =
     (announce filt name @ evs @ [Run_post_hook cmd (test_timeout conf)]
        @ verdict filt (\<exists>stderr. hook_run (world rname name) = Exited 0 stderr),
      case hook_run (world rname name) of
        Exited c stderr \<Rightarrow>
          Tested (c = 0)
            (if c = 0 then out0
             else out0 @ nl @ ''POST-HOOK [`'' @ py_join '' '' cmd @ ''`] Failed: '' @ stderr)
      | Hook_raised e \<Rightarrow> Tested False out0)"
      by (intro grade_test_hook) (erule conjE | assumption)+
    have p1: "fst (grade_test world rc filt rname name conf) =
          announce filt name @ evs @ [Run_post_hook cmd (test_timeout conf)]
          @ verdict filt (\<exists>stderr. hook_run (world rname name) = Exited 0 stderr)"
      by (simp only: g fst_conv)
    have p2: "\<forall>c stderr. hook_run (world rname name) = Exited c stderr \<longrightarrow>
              snd (grade_test world rc filt rname name conf) =
                Tested (c = 0)
                  (if c = 0 then out0
                   else out0 @ nl @ ''POST-HOOK [`'' @ py_join '' '' cmd @ ''`] Failed: '' @ stderr)"
      by (simp add: g)
    have p3: "\<forall>e rest gr. hook_run (world rname name) = Hook_raised e \<longrightarrow>
              snd (grade_test world rc filt rname name conf) = Tested False out0
              \<and> grade_tests world rc filt rname ((name, conf) # rest) gr =
                  prepend (fst (grade_test world rc filt rname name conf))
                    (grade_tests world rc filt rname rest
                       (record_result rname name (False, out0) gr))"
    proof (intro allI impI)
      fix e rest gr
      assume h: "hook_run (world rname name) = Hook_raised e"
      with g have t: "grade_test world rc filt rname name conf =
          (fst (grade_test world rc filt rname name conf), Tested False out0)"
        by simp
      from g h have s: "snd (grade_test world rc filt rname name conf) = Tested False out0"
        by simp
      from t have "grade_tests world rc filt rname ((name, conf) # rest) gr =
                  prepend (fst (grade_test world rc filt rname name conf))
                    (grade_tests world rc filt rname rest
                       (record_result rname name (False, out0) gr))"
        by (rule grade_tests_Tested)
      with s show "snd (grade_test world rc filt rname name conf) = Tested False out0
              \<and> grade_tests world rc filt rname ((name, conf) # rest) gr =
                  prepend (fst (grade_test world rc filt rname name conf))
                    (grade_tests world rc filt rname rest
                       (record_result rname name (False, out0) gr))"
        by (rule conjI)
    qed
    from p1 p2 p3 show "fst (grade_test world rc filt rname name conf) =
          announce filt name @ evs @ [Run_post_hook cmd (test_timeout conf)]
          @ verdict filt (\<exists>stderr. hook_run (world rname name) = Exited 0 stderr)
        \<and> (\<forall>c stderr. hook_run (world rname name) = Exited c stderr \<longrightarrow>
              snd (grade_test world rc filt rname name conf) =
                Tested (c = 0)
                  (if c = 0 then out0
                   else out0 @ nl @ ''POST-HOOK [`'' @ py_join '' '' cmd @ ''`] Failed: '' @ stderr))
        \<and> (\<forall>e rest gr. hook_run (world rname name) = Hook_raised e \<longrightarrow>
              snd (grade_test world rc filt rname name conf) = Tested False out0
              \<and> grade_tests world rc filt rname ((name, conf) # rest) gr =
                  prepend (fst (grade_test world rc filt rname name conf))
                    (grade_tests world rc filt rname rest
                       (record_result rname name (False, out0) gr)))"
      by (intro conjI)
  qed
qed

theorem post_hook_rules_witness:
  "Run_post_hook [''check'', ''disk''] 5
     \<in> set (fst (grade_test hook_fails_world [''qemu''] None ''core'' ''t1'' hook_conf))
   \<and> conf_post_hook hook_conf = Some (Hook_list [''check'', ''disk''])
   \<and> 5 = test_timeout hook_conf
   \<and> hook_run (hook_fails_world ''core'' ''t1'') = Exited 1 ''bad''
   \<and> snd (grade_test hook_fails_world [''qemu''] None ''core'' ''t1'' hook_conf) =
       Tested (1 = (0::int))
         (if 1 = (0::int) then ''test result: ok. 1 passed; 0 failed''
          else ''test result: ok. 1 passed; 0 failed'' @ nl @ ''POST-HOOK [`''
               @ py_join '' '' [''check'', ''disk''] @ ''`] Failed: '' @ ''bad'')
   \<and> hook_run (hook_raises_world ''core'' ''t1'') = Hook_raised (Exn SystemExit ''1'')
   \<and> snd (grade_test hook_raises_world [''qemu''] None ''core'' ''t1'' hook_conf) =
       Tested False ''test result: ok. 1 passed; 0 failed''"
proof -
  note f = hook_scenario_facts
  note t1 = post_hook_rules [where world = hook_fails_world and rc = "[''qemu'']"
      and filt = None and rname = "''core''" and name = "''t1''" and conf = hook_conf]
  note t2 = post_hook_rules [where world = hook_raises_world and rc = "[''qemu'']"
      and filt = None and rname = "''core''" and name = "''t1''" and conf = hook_conf]
  from t1 f(7) have a: "conf_post_hook hook_conf = Some (Hook_list [''check'', ''disk''])
      \<and> 5 = test_timeout hook_conf"
    by blast
  from t1 f(1,2,3,4) hook_fails_single
  have "\<forall>c stderr. hook_run (hook_fails_world ''core'' ''t1'') = Exited c stderr \<longrightarrow>
      snd (grade_test hook_fails_world [''qemu''] None ''core'' ''t1'' hook_conf) =
        Tested (c = 0)
          (if c = 0 then ''test result: ok. 1 passed; 0 failed''
           else ''test result: ok. 1 passed; 0 failed'' @ nl @ ''POST-HOOK [`''
                @ py_join '' '' [''check'', ''disk''] @ ''`] Failed: '' @ stderr)"
    by blast
  with f(5) have b: "snd (grade_test hook_fails_world [''qemu''] None ''core'' ''t1'' hook_conf) =
       Tested (1 = (0::int))
         (if 1 = (0::int) then ''test result: ok. 1 passed; 0 failed''
          else ''test result: ok. 1 passed; 0 failed'' @ nl @ ''POST-HOOK [`''
               @ py_join '' '' [''check'', ''disk''] @ ''`] Failed: '' @ ''bad'')"
    by blast
  from t2 f(1,2,3,4) hook_raises_single
  have "\<forall>e rest gr. hook_run (hook_raises_world ''core'' ''t1'') = Hook_raised e \<longrightarrow>
      snd (grade_test hook_raises_world [''qemu''] None ''core'' ''t1'' hook_conf)
        = Tested False ''test result: ok. 1 passed; 0 failed''
      \<and> grade_tests hook_raises_world [''qemu''] None ''core'' ((''t1'', hook_conf) # rest) gr =
          prepend (fst (grade_test hook_raises_world [''qemu''] None ''core'' ''t1'' hook_conf))
            (grade_tests hook_raises_world [''qemu''] None ''core'' rest
               (record_result ''core'' ''t1'' (False, ''test result: ok. 1 passed; 0 failed'') gr))"
    by blast
  with f(6) have c: "snd (grade_test hook_raises_world [''qemu''] None ''core'' ''t1'' hook_conf) =
       Tested False ''test result: ok. 1 passed; 0 failed''"
    by blast
  from f(7) a f(5) b f(6) c show ?thesis by (intro conjI) (erule conjE | assumption)+
qed

text \<open>
  C2 fails on the code: a rubric without tests is graded to an empty result, and
  \<open>summarize\<close> then raises \<open>ZeroDivisionError\<close> instead of scoring the rubric zero.
\<close>

theorem summarize_empty_rubric_raises:
  "snd (grade scenario_world 1 [''qemu''] empty_rubrics None) = Inr (Some [(''core'', [])])
   \<and> snd (summarize 1 empty_rubrics [(''core'', [])])
       = Some (Exn ZeroDivisionError ''float division by zero'')"
  by code_simp

end
